theory Spec2Isabelle
  imports Complex_Main "HOL-Library.Multiset"
begin

section \<open>Python and NumPy primitives used by the notebook\<close>

text \<open>
  The notebook is Python 3 on NumPy and TensorFlow 1.x. Python integers are \<open>int\<close>,
  token arrays are \<open>int list\<close>, a two-dimensional array is the list of its rows, and
  every exception the modelled code can raise is a value of \<open>py_error\<close>.
\<close>

datatype py_error = ZeroDivisionError | ValueError | IndexError | InvalidArgumentError

text \<open>\<^verbatim>\<open>a // b\<close> on Python integers: floor division, raising on a zero divisor.\<close>

definition py_floordiv :: "int \<Rightarrow> int \<Rightarrow> py_error + int" where
  "py_floordiv a b = (if b = 0 then Inl ZeroDivisionError else Inr (a div b))"

text \<open>\<^verbatim>\<open>range(n)\<close>: empty when \<open>n \<le> 0\<close>.\<close>

definition py_range :: "int \<Rightarrow> int list" where
  "py_range n = [0..n - 1]"

text \<open>
  A slice bound is counted from the end when negative and clipped to the length.
\<close>

definition py_clip :: "int \<Rightarrow> int \<Rightarrow> int" where
  "py_clip n i = (if i < 0 then max 0 (i + n) else min i n)"

definition py_slice :: "'a list \<Rightarrow> int \<Rightarrow> int \<Rightarrow> 'a list" where
  "py_slice xs lo hi =
     (let n = int (length xs); a = py_clip n lo; b = py_clip n hi
      in take (nat (b - a)) (drop (nat a) xs))"

text \<open>Row-major layout of a flat array as \<open>r\<close> rows of \<open>c\<close> entries.\<close>

definition row_major :: "'a list \<Rightarrow> nat \<Rightarrow> nat \<Rightarrow> 'a list list" where
  "row_major xs r c = map (\<lambda>k. take c (drop (k * c) xs)) [0..<r]"

text \<open>
  \<^verbatim>\<open>np.reshape(xs, (r, c))\<close> of a flat array. A negative dimension is the unknown one,
  inferred from the size; two unknown dimensions, an unknown dimension beside a zero
  one, and a size that does not fit raise \<^verbatim>\<open>ValueError\<close>.
\<close>

definition np_reshape2 :: "'a list \<Rightarrow> int \<Rightarrow> int \<Rightarrow> py_error + 'a list list" where
  "np_reshape2 xs r c =
     (let n = int (length xs) in
      if r < 0 \<and> c < 0 then Inl ValueError
      else if r < 0 then
        (if c = 0 \<or> n mod c \<noteq> 0 then Inl ValueError
         else Inr (row_major xs (nat (n div c)) (nat c)))
      else if c < 0 then
        (if r = 0 \<or> n mod r \<noteq> 0 then Inl ValueError
         else Inr (row_major xs (nat r) (nat (n div r))))
      else if r * c \<noteq> n then Inl ValueError
      else Inr (row_major xs (nat r) (nat c)))"

text \<open>
  \<^verbatim>\<open>data[:, j]\<close> on an array with \<open>width\<close> columns: a negative index counts from the
  end, an index outside the axis raises \<^verbatim>\<open>IndexError\<close>.
\<close>

definition np_column :: "'a list list \<Rightarrow> int \<Rightarrow> int \<Rightarrow> py_error + 'a list" where
  "np_column data width j =
     (let k = (if j < 0 then j + width else j)
      in if 0 \<le> k \<and> k < width then Inr (map (\<lambda>row. row ! nat k) data)
         else Inl IndexError)"

text \<open>
  A generator is modelled by the list of everything it yields; an exception raised
  while producing any element makes the whole pass an error.
\<close>

fun yield_each :: "('i \<Rightarrow> py_error + 'b) \<Rightarrow> 'i list \<Rightarrow> py_error + 'b list" where
  "yield_each f [] = Inr []"
| "yield_each f (i # rest) =
     (case f i of
        Inl e \<Rightarrow> Inl e
      | Inr b \<Rightarrow> (case yield_each f rest of Inl e \<Rightarrow> Inl e | Inr bs \<Rightarrow> Inr (b # bs)))"

section \<open>Configuration\<close>

text \<open>Class \<^verbatim>\<open>Config\<close> of the notebook, with the values its constructor assigns.\<close>

record Config =
  vocab_size :: int
  batch_size :: int
  num_rnn_steps :: int
  embed_size :: int
  rnn_size :: int
  hidden_size :: int
  rui_init :: real
  vsi_init :: real
  neg_samples :: int
  learn_rate :: real
  momentum :: real
  epochs :: int
  embed_vis_depth :: int

definition Config_init :: "int \<Rightarrow> Config" where
  "Config_init num_words =
     \<lparr> vocab_size = num_words, batch_size = 32, num_rnn_steps = 20, embed_size = 64,
       rnn_size = 128, hidden_size = 196, rui_init = 1 / 100, vsi_init = 1 / 100,
       neg_samples = 64, learn_rate = 5 / 100, momentum = 8 / 10, epochs = 2,
       embed_vis_depth = 2048 \<rparr>"

section \<open>The batch feeder\<close>

text \<open>
  \<^verbatim>\<open>feeder(config, word_array)\<close> and \<^verbatim>\<open>epoch_len(config, word_array)\<close>. The effect of
  \<^verbatim>\<open>random.shuffle\<close> on a list under the current state of the random generator is
  the parameter \<open>shuffle\<close>; the library guarantees that it permutes its argument.
\<close>

type_synonym batch = "int list list \<times> int list list"

definition batch_width :: "Config \<Rightarrow> int list \<Rightarrow> py_error + int" where
  "batch_width config word_array =
     py_floordiv (int (length word_array)) (batch_size config)"

text \<open>The array \<^verbatim>\<open>data\<close> of the feeder: the token grid.\<close>

definition token_grid :: "Config \<Rightarrow> int list \<Rightarrow> py_error + int list list" where
  "token_grid config word_array =
     (case batch_width config word_array of
        Inl e \<Rightarrow> Inl e
      | Inr bw \<Rightarrow>
          np_reshape2 (py_slice word_array 0 (batch_size config * bw))
            (batch_size config) bw)"

text \<open>The list \<^verbatim>\<open>shuffle_index\<close> after the call of \<^verbatim>\<open>random.shuffle\<close>.\<close>

definition shuffle_index :: "(int list \<Rightarrow> int list) \<Rightarrow> Config \<Rightarrow> int \<Rightarrow> int list" where
  "shuffle_index shuffle config bw =
     shuffle (py_range (bw - num_rnn_steps config - 1))"

text \<open>The body of the loop: the pair \<^verbatim>\<open>(x, y)\<close> yielded for start column \<open>i\<close>.\<close>

definition window :: "Config \<Rightarrow> int list list \<Rightarrow> int \<Rightarrow> int \<Rightarrow> py_error + batch" where
  "window config data bw i =
     (let x = map (\<lambda>row. py_slice row i (i + num_rnn_steps config)) data
      in case np_column data bw (i + num_rnn_steps config) of
           Inl e \<Rightarrow> Inl e
         | Inr col \<Rightarrow>
             (case np_reshape2 col (- 1) 1 of
                Inl e \<Rightarrow> Inl e
              | Inr y \<Rightarrow> Inr (x, y)))"

definition feeder :: "(int list \<Rightarrow> int list) \<Rightarrow> Config \<Rightarrow> int list \<Rightarrow> py_error + batch list" where
  "feeder shuffle config word_array =
     (case batch_width config word_array of
        Inl e \<Rightarrow> Inl e
      | Inr bw \<Rightarrow>
          (case token_grid config word_array of
             Inl e \<Rightarrow> Inl e
           | Inr data \<Rightarrow>
               yield_each (window config data bw) (shuffle_index shuffle config bw)))"

definition epoch_len :: "Config \<Rightarrow> int list \<Rightarrow> py_error + int" where
  "epoch_len config word_array =
     (case batch_width config word_array of
        Inl e \<Rightarrow> Inl e
      | Inr bw \<Rightarrow> Inr (bw - num_rnn_steps config - 1))"

text \<open>
  The batch of the specification for start column \<open>i\<close>: the input window
  \<^verbatim>\<open>grid[:, i : i+num_steps]\<close> and the target \<^verbatim>\<open>grid[:, i+num_steps]\<close> as a column.
\<close>

definition spec_window :: "int list list \<Rightarrow> nat \<Rightarrow> nat \<Rightarrow> batch" where
  "spec_window grid num_steps i =
     (map (\<lambda>row. take num_steps (drop i row)) grid, map (\<lambda>row. [row ! (i + num_steps)]) grid)"

section \<open>The training loop\<close>

text \<open>
  The training cell. \<^verbatim>\<open>sess.run([g.train_op, g.batch_loss, g.step], feed_dict=feed)\<close> is
  TensorFlow's: it is the parameter \<open>run\<close>, which takes the session state and the fed
  batch to the new session state, the batch loss and the fetched global step. The
  summaries and the checkpoint written by the cell do not touch the buffer and are
  left out, and so is the progress bar \<^verbatim>\<open>tqdm_notebook\<close>, which hands the batches of the
  feeder on to the loop.
\<close>

definition move_avg_len :: nat where
  "move_avg_len = 20"

type_synonym 's sess_run = "'s \<Rightarrow> batch \<Rightarrow> 's \<times> real \<times> int"

fun train_batches :: "'s sess_run \<Rightarrow> 's \<times> real list \<Rightarrow> batch list \<Rightarrow> 's \<times> real list" where
  "train_batches run (sess, move_avg_loss) [] = (sess, move_avg_loss)"
| "train_batches run (sess, move_avg_loss) (t # ts) =
     (case run sess t of
        (sess', batch_loss, step) \<Rightarrow>
          train_batches run
            (sess', move_avg_loss[nat (step mod int move_avg_len) := batch_loss]) ts)"

text \<open>\<^verbatim>\<open>np.mean\<close> of a one-dimensional array.\<close>

definition np_mean :: "real list \<Rightarrow> real" where
  "np_mean xs = sum_list xs / real (length xs)"

text \<open>
  The body of the loop over epochs: the loop over the batches, then the mean that is
  printed.
\<close>

definition train_epoch :: "'s sess_run \<Rightarrow> 's \<times> real list \<Rightarrow> batch list \<Rightarrow> ('s \<times> real list) \<times> real" where
  "train_epoch run st batches =
     (case train_batches run st batches of
        (sess', move_avg_loss) \<Rightarrow> ((sess', move_avg_loss), np_mean move_avg_loss))"

fun train_epochs ::
  "'s sess_run \<Rightarrow> (nat \<Rightarrow> int list \<Rightarrow> int list) \<Rightarrow> Config \<Rightarrow> int list \<Rightarrow> nat list \<Rightarrow>
   ('s \<times> real list) \<times> real list \<Rightarrow> py_error + (('s \<times> real list) \<times> real list)" where
  "train_epochs run shuffle config word_array [] (st, printed) = Inr (st, printed)"
| "train_epochs run shuffle config word_array (e # es) (st, printed) =
     (case feeder (shuffle e) config word_array of
        Inl err \<Rightarrow> Inl err
      | Inr batches \<Rightarrow>
          (case train_epoch run st batches of
             (st', report) \<Rightarrow>
               train_epochs run shuffle config word_array es (st', printed @ [report])))"

definition train ::
  "'s sess_run \<Rightarrow> (nat \<Rightarrow> int list \<Rightarrow> int list) \<Rightarrow> Config \<Rightarrow> int list \<Rightarrow> 's \<Rightarrow>
   py_error + (('s \<times> real list) \<times> real list)" where
  "train run shuffle config word_array sess =
     train_epochs run shuffle config word_array [0..<nat (epochs config)]
       ((sess, replicate move_avg_len 0), [])"

text \<open>
  The pairs \<^verbatim>\<open>(batch_loss, step)\<close> that the successive calls of \<^verbatim>\<open>sess.run\<close> return
  along a list of batches.
\<close>

fun run_trace :: "'s sess_run \<Rightarrow> 's \<Rightarrow> batch list \<Rightarrow> (real \<times> int) list" where
  "run_trace run sess [] = []"
| "run_trace run sess (t # ts) =
     (case run sess t of (sess', batch_loss, step) \<Rightarrow> (batch_loss, step) # run_trace run sess' ts)"

text \<open>The assignment \<^verbatim>\<open>move_avg_loss[step % L] = batch_loss\<close> for a buffer of length \<open>L\<close>.\<close>

definition store :: "nat \<Rightarrow> 'a list \<Rightarrow> 'a \<times> int \<Rightarrow> 'a list" where
  "store L buf p = buf[nat (snd p mod int L) := fst p]"

section \<open>The recurrent cell\<close>

text \<open>
  TensorFlow tensors of \<^verbatim>\<open>float32\<close> are modelled with exact real entries: a vector is a
  list, a matrix the list of its rows. The operations below are the TensorFlow
  operations the cell calls, on operands of the shapes the graph gives them
  (\<open>x\<close> is \<open>batch_size \<times> embed_size\<close>, \<open>h_1\<close> is \<open>batch_size \<times> rnn_size\<close>).
\<close>

type_synonym vector = "real list"

type_synonym matrix = "real list list"

text \<open>The logistic function computed by \<^verbatim>\<open>tf.sigmoid\<close>.\<close>

definition sigmoid :: "real \<Rightarrow> real" where
  "sigmoid v = 1 / (1 + exp (- v))"

definition dot :: "vector \<Rightarrow> vector \<Rightarrow> real" where
  "dot u v = sum_list (map2 (*) u v)"

text \<open>\<^verbatim>\<open>tf.matmul(a, m)\<close>, \<^verbatim>\<open>tf.concat([a, c], axis=1)\<close>, and the broadcast \<^verbatim>\<open>a + v\<close> of a
  vector over the rows of a matrix.\<close>

definition tf_matmul :: "matrix \<Rightarrow> matrix \<Rightarrow> matrix" where
  "tf_matmul a m = map (\<lambda>row. map (dot row) (transpose m)) a"

definition tf_concat1 :: "matrix \<Rightarrow> matrix \<Rightarrow> matrix" where
  "tf_concat1 a c = map2 (@) a c"

definition bias_add :: "matrix \<Rightarrow> vector \<Rightarrow> matrix" where
  "bias_add a v = map (\<lambda>row. map2 (+) row v) a"

definition tf_sigmoid :: "matrix \<Rightarrow> matrix" where
  "tf_sigmoid a = map (map sigmoid) a"

definition tf_tanh :: "matrix \<Rightarrow> matrix" where
  "tf_tanh a = map (map tanh) a"

text \<open>The elementwise \<^verbatim>\<open>a * c\<close>, \<^verbatim>\<open>a + c\<close> and \<^verbatim>\<open>1 - a\<close>.\<close>

definition tf_multiply :: "matrix \<Rightarrow> matrix \<Rightarrow> matrix" where
  "tf_multiply a c = map2 (map2 (*)) a c"

definition tf_add :: "matrix \<Rightarrow> matrix \<Rightarrow> matrix" where
  "tf_add a c = map2 (map2 (+)) a c"

definition one_minus :: "matrix \<Rightarrow> matrix" where
  "one_minus a = map (map (\<lambda>v. 1 - v)) a"

text \<open>
  The values of the variables of scope \<^verbatim>\<open>GRU\<close>, which \<^verbatim>\<open>cell\<close> reads with
  \<^verbatim>\<open>tf.get_variable\<close> under \<^verbatim>\<open>reuse=True\<close>.
\<close>

record gru_variables =
  gru_Wr :: matrix
  gru_Wz :: matrix
  gru_W :: matrix
  gru_br :: vector
  gru_bz :: vector
  gru_b :: vector
  gru_h_init :: matrix

definition cell :: "gru_variables \<Rightarrow> matrix \<Rightarrow> matrix \<Rightarrow> matrix" where
  "cell vars x h_1 =
     (let xh = tf_concat1 x h_1;
          r = tf_sigmoid (bias_add (tf_matmul xh (gru_Wr vars)) (gru_br vars));
          rh_1 = tf_multiply r h_1;
          xrh_1 = tf_concat1 x rh_1;
          z = tf_sigmoid (bias_add (tf_matmul xh (gru_Wz vars)) (gru_bz vars));
          h_tild = tf_tanh (bias_add (tf_matmul xrh_1 (gru_W vars)) (gru_b vars));
          h = tf_add (tf_multiply z h_1) (tf_multiply (one_minus z) h_tild)
      in h)"

text \<open>
  \<^verbatim>\<open>init_rnn_cell\<close> creates the variables of scope \<^verbatim>\<open>GRU\<close> and returns \<^verbatim>\<open>h_init\<close>. A variable
  is recorded with its name, shape and initializer; \<^verbatim>\<open>tf.get_variable\<close> creates trainable
  variables unless told otherwise. Its first argument is used for its shape only.
\<close>

datatype initializer = rui_initializer | vsi_initializer | zero_initializer | one_initializer

record tf_variable =
  var_name :: string
  var_shape :: "int list"
  var_initializer :: initializer
  var_trainable :: bool

definition tf_get_variable :: "string \<Rightarrow> int list \<Rightarrow> initializer \<Rightarrow> tf_variable" where
  "tf_get_variable name shape init =
     \<lparr> var_name = name, var_shape = shape, var_initializer = init, var_trainable = True \<rparr>"

definition init_rnn_cell :: "int \<times> int \<Rightarrow> int \<Rightarrow> int \<Rightarrow> tf_variable list \<times> tf_variable" where
  "init_rnn_cell x_shape num_cells batch_sz =
     (let i_sz = snd x_shape + num_cells;
          o_sz = num_cells;
          Wr = tf_get_variable ''Wr'' [i_sz, o_sz] vsi_initializer;
          Wz = tf_get_variable ''Wz'' [i_sz, o_sz] vsi_initializer;
          W = tf_get_variable ''W'' [i_sz, o_sz] vsi_initializer;
          br = tf_get_variable ''br'' [o_sz] one_initializer;
          bz = tf_get_variable ''bz'' [o_sz] one_initializer;
          b = tf_get_variable ''b'' [o_sz] zero_initializer;
          h_init = tf_get_variable ''h_init'' [batch_sz, o_sz] zero_initializer
      in ([Wr, Wz, W, br, bz, b, h_init], h_init))"

text \<open>
  The loop of \<^verbatim>\<open>model\<close> that unrolls the cell: \<^verbatim>\<open>embed_out\<close> holds, for every lane, the
  embedded vectors of its window, \<^verbatim>\<open>embed_out[:, i, :]\<close> is the \<open>i\<close>-th vector of every lane,
  and \<open>s\<close> is the list of states, beginning with \<^verbatim>\<open>h_init\<close>.
\<close>

fun rnn_unroll :: "gru_variables \<Rightarrow> vector list list \<Rightarrow> nat list \<Rightarrow> matrix list \<Rightarrow> matrix list" where
  "rnn_unroll vars embed_out [] s = s"
| "rnn_unroll vars embed_out (i # rest) s =
     (let s_1 = last s
      in rnn_unroll vars embed_out rest (s @ [cell vars (map (\<lambda>lane. lane ! i) embed_out) s_1]))"

definition rnn_states :: "gru_variables \<Rightarrow> vector list list \<Rightarrow> nat \<Rightarrow> matrix list" where
  "rnn_states vars embed_out num_steps =
     rnn_unroll vars embed_out [0..<num_steps] [gru_h_init vars]"

text \<open>
  The transition of the specification for one lane, in the specification's words:
  \<open>reset_gate = sigmoid(concat(x, h_prev) \<cdot> Wr + br)\<close>,
  \<open>update_gate = sigmoid(concat(x, h_prev) \<cdot> Wz + bz)\<close>,
  \<open>candidate = tanh(concat(x, reset_gate * h_prev) \<cdot> W + b)\<close>,
  \<open>h_next = update_gate * h_prev + (1 - update_gate) * candidate\<close>.
\<close>

definition vec_mat :: "vector \<Rightarrow> matrix \<Rightarrow> vector" where
  "vec_mat v m = map (dot v) (transpose m)"

definition spec_reset_gate :: "gru_variables \<Rightarrow> vector \<Rightarrow> vector \<Rightarrow> vector" where
  "spec_reset_gate vars x h_prev =
     map sigmoid (map2 (+) (vec_mat (x @ h_prev) (gru_Wr vars)) (gru_br vars))"

definition spec_update_gate :: "gru_variables \<Rightarrow> vector \<Rightarrow> vector \<Rightarrow> vector" where
  "spec_update_gate vars x h_prev =
     map sigmoid (map2 (+) (vec_mat (x @ h_prev) (gru_Wz vars)) (gru_bz vars))"

definition spec_candidate :: "gru_variables \<Rightarrow> vector \<Rightarrow> vector \<Rightarrow> vector" where
  "spec_candidate vars x h_prev =
     map tanh (map2 (+)
       (vec_mat (x @ map2 (*) (spec_reset_gate vars x h_prev) h_prev) (gru_W vars))
       (gru_b vars))"

definition spec_h_next :: "gru_variables \<Rightarrow> vector \<Rightarrow> vector \<Rightarrow> vector" where
  "spec_h_next vars x h_prev =
     map2 (+)
       (map2 (*) (spec_update_gate vars x h_prev) h_prev)
       (map2 (*) (map (\<lambda>u. 1 - u) (spec_update_gate vars x h_prev))
                 (spec_candidate vars x h_prev))"

section \<open>The predictor and the generation loop\<close>

text \<open>
  The predictor of \<^verbatim>\<open>loss\<close>:
  \<^verbatim>\<open>y_hat = tf.argmax(tf.matmul(hid_out, w, transpose_b=True) + b, axis=1)\<close>, with \<open>w\<close> of
  shape \<open>(vocab_size, hidden_size)\<close> and \<open>b\<close> of shape \<open>(vocab_size)\<close>.
\<close>

definition tf_matmul_transpose_b :: "matrix \<Rightarrow> matrix \<Rightarrow> matrix" where
  "tf_matmul_transpose_b a m = map (\<lambda>row. map (dot row) m) a"

text \<open>
  \<^verbatim>\<open>tf.argmax\<close> along a row: the index of the largest entry, the lowest one among equal
  entries.
\<close>

definition tf_argmax :: "real list \<Rightarrow> nat" where
  "tf_argmax xs = length (takeWhile (\<lambda>v. v < fold max xs (hd xs)) xs)"

definition y_hat :: "matrix \<Rightarrow> vector \<Rightarrow> matrix \<Rightarrow> nat list" where
  "y_hat w b hid_out = map tf_argmax (bias_add (tf_matmul_transpose_b hid_out w) b)"

text \<open>
  \<^verbatim>\<open>sess.run([g.y_hat], feed_dict={g.x: x})\<close>. The graph is that of \<^verbatim>\<open>MyGraph(config)\<close> with
  the restored parameters: \<open>hid_out\<close> is the function from the fed windows to the
  output of \<^verbatim>\<open>model\<close> (embedding, recurrent network of the TensorFlow library, hidden
  layer), \<open>w\<close> and \<open>b\<close> are the variables of scope \<^verbatim>\<open>output\<close>. A fed array that does not
  have the shape \<open>(batch_size, num_rnn_steps)\<close> of the placeholder is refused, and so is
  an \<^verbatim>\<open>argmax\<close> along an empty axis.
\<close>

definition run_y_hat ::
  "(int list list \<Rightarrow> matrix) \<Rightarrow> matrix \<Rightarrow> vector \<Rightarrow> Config \<Rightarrow> int list list \<Rightarrow> py_error + int list" where
  "run_y_hat hid_out w b config x =
     (if int (length x) \<noteq> batch_size config
         \<or> (\<exists>row\<in>set x. int (length row) \<noteq> num_rnn_steps config)
      then Inl ValueError
      else if w = [] \<or> b = [] then Inl InvalidArgumentError
      else Inr (map int (y_hat w b (hid_out x))))"

text \<open>
  The prediction cell. The loop body reshapes \<^verbatim>\<open>input[i:(i+num_rnn_steps)]\<close> to one row,
  runs the predictor and appends the predicted token to \<^verbatim>\<open>input\<close>; \<open>predict_loop\<close> is the
  loop from index \<open>i\<close> for \<open>n\<close> more iterations. The cell sets \<^verbatim>\<open>config.batch_size = 1\<close>,
  takes the seed at \<^verbatim>\<open>start = 11000\<close> and iterates over \<^verbatim>\<open>range(250)\<close>.
\<close>

fun predict_loop ::
  "(int list list \<Rightarrow> py_error + int list) \<Rightarrow> int \<Rightarrow> nat \<Rightarrow> nat \<Rightarrow> int list \<Rightarrow> py_error + int list" where
  "predict_loop run ns i 0 input = Inr input"
| "predict_loop run ns i (Suc n) input =
     (case np_reshape2 (py_slice input (int i) (int i + ns)) 1 (- 1) of
        Inl e \<Rightarrow> Inl e
      | Inr x \<Rightarrow>
          (case run x of
             Inl e \<Rightarrow> Inl e
           | Inr pred \<Rightarrow> predict_loop run ns (Suc i) n (input @ pred)))"

definition predict ::
  "(int list list \<Rightarrow> matrix) \<Rightarrow> matrix \<Rightarrow> vector \<Rightarrow> Config \<Rightarrow> int list \<Rightarrow> int \<Rightarrow> nat \<Rightarrow> py_error + int list" where
  "predict hid_out w b config word_array start pred_count =
     (let config = config\<lparr>batch_size := 1\<rparr>;
          input = py_slice word_array start (start + num_rnn_steps config)
      in predict_loop (run_y_hat hid_out w b config) (num_rnn_steps config) 0 pred_count input)"

definition prediction ::
  "(int list list \<Rightarrow> matrix) \<Rightarrow> matrix \<Rightarrow> vector \<Rightarrow> Config \<Rightarrow> int list \<Rightarrow> py_error + int list" where
  "prediction hid_out w b config word_array = predict hid_out w b config word_array 11000 250"

text \<open>
  The dense scores of the specification for one representation,
  \<open>representation \<cdot> W\<^sup>T + b\<close>.
\<close>

definition dense_scores :: "matrix \<Rightarrow> vector \<Rightarrow> vector \<Rightarrow> vector" where
  "dense_scores w b repr = map2 (+) (map (dot repr) w) b"

text \<open>The dense scores of the representation of one window of tokens.\<close>

definition window_scores :: "(int list list \<Rightarrow> matrix) \<Rightarrow> matrix \<Rightarrow> vector \<Rightarrow> int list \<Rightarrow> vector" where
  "window_scores hid_out w b win = dense_scores w b (hd (hid_out [win]))"

section \<open>Facts about the primitives and the feeder\<close>

lemma set_py_range: "set (py_range n) = {0..n - 1}"
  by (simp add: py_range_def)

lemma distinct_py_range: "distinct (py_range n)"
  by (simp add: py_range_def)

lemma py_range_nonpos: "n \<le> 0 \<Longrightarrow> py_range n = []"
  by (simp add: py_range_def)

lemma shuffle_Nil:
  assumes "\<And>xs. mset (shuffle xs) = mset xs"
  shows "shuffle [] = []"
  using assms [of "[]"] by simp

lemma batch_width_pos:
  assumes "0 < batch_size config"
  shows "batch_width config ws = Inr (int (length ws div nat (batch_size config)))"
  using assms by (simp add: batch_width_def py_floordiv_def zdiv_int)

lemma yield_each_map:
  "(\<And>i. i \<in> set idx \<Longrightarrow> f i = Inr (g i)) \<Longrightarrow> yield_each f idx = Inr (map g idx)"
  by (induction idx) auto

lemma py_slice_prefix:
  "k \<le> length xs \<Longrightarrow> py_slice xs 0 (int k) = take k xs"
  by (simp add: py_slice_def py_clip_def Let_def)

lemma py_slice_inside:
  assumes "0 \<le> i" "0 \<le> s" "nat i + nat s \<le> length xs"
  shows "py_slice xs i (i + s) = take (nat s) (drop (nat i) xs)"
proof -
  have le: "i \<le> int (length xs)" "i + s \<le> int (length xs)" "0 \<le> i + s"
    using assms by linarith+
  have a: "py_clip (int (length xs)) i = i"
    unfolding py_clip_def using assms(1) le(1) by simp
  have b: "py_clip (int (length xs)) (i + s) = i + s"
    unfolding py_clip_def using le(2,3) by simp
  show ?thesis unfolding py_slice_def Let_def a b by simp
qed

lemma take_one_drop: "k < length xs \<Longrightarrow> take (Suc 0) (drop k xs) = [xs ! k]"
  by (simp add: Cons_nth_drop_Suc [symmetric])

lemma row_major_singletons: "row_major xs (length xs) (Suc 0) = map (\<lambda>v. [v]) xs"
proof (rule nth_equalityI)
  show "length (row_major xs (length xs) (Suc 0)) = length (map (\<lambda>v. [v]) xs)"
    by (simp add: row_major_def)
  fix i assume "i < length (row_major xs (length xs) (Suc 0))"
  then have "i < length xs" by (simp add: row_major_def)
  then show "row_major xs (length xs) (Suc 0) ! i = map (\<lambda>v. [v]) xs ! i"
    by (simp add: row_major_def take_one_drop)
qed

lemma np_reshape2_column: "np_reshape2 xs (- 1) 1 = Inr (map (\<lambda>v. [v]) xs)"
  by (simp add: np_reshape2_def Let_def row_major_singletons)

lemma np_reshape2_exact:
  "length xs = r * c \<Longrightarrow> np_reshape2 xs (int r) (int c) = Inr (row_major xs r c)"
  by (simp add: np_reshape2_def Let_def)

lemma length_row_major: "length (row_major xs r c) = r"
  by (simp add: row_major_def)

lemma row_major_nth:
  assumes "k < r" "r * c \<le> length xs"
  shows "row_major (take (r * c) xs) r c ! k = take c (drop (k * c) xs)"
proof -
  have "Suc k * c \<le> r * c" using assms(1) by (simp add: Suc_leI mult_le_mono1 del: mult_Suc)
  then have "c \<le> r * c - k * c" by simp
  then show ?thesis using assms(1)
    by (simp add: row_major_def drop_take min_def)
qed

lemma row_major_row_length:
  assumes "row \<in> set (row_major (take (r * c) xs) r c)" "r * c \<le> length xs"
  shows "length row = c"
proof -
  from assms(1) obtain k where k: "k < r" "row = row_major (take (r * c) xs) r c ! k"
    by (metis in_set_conv_nth length_row_major)
  have "Suc k * c \<le> r * c" using k(1) by (simp add: Suc_leI mult_le_mono1 del: mult_Suc)
  then have "k * c + c \<le> length xs" using assms(2) by simp
  then show ?thesis using k assms(2) by (simp add: row_major_nth)
qed

lemma window_inside:
  assumes rows: "\<And>row. row \<in> set data \<Longrightarrow> length row = W"
    and ns: "0 \<le> num_rnn_steps config"
    and i: "0 \<le> i" "nat i + nat (num_rnn_steps config) < W"
  shows "window config data (int W) i =
           Inr (map (\<lambda>row. take (nat (num_rnn_steps config)) (drop (nat i) row)) data,
                map (\<lambda>row. [row ! (nat i + nat (num_rnn_steps config))]) data)"
proof -
  have x: "map (\<lambda>row. py_slice row i (i + num_rnn_steps config)) data =
           map (\<lambda>row. take (nat (num_rnn_steps config)) (drop (nat i) row)) data"
    using rows ns i by (intro map_cong refl py_slice_inside) auto
  have k: "nat (i + num_rnn_steps config) = nat i + nat (num_rnn_steps config)"
    using ns i by (simp add: nat_add_distrib)
  have col: "np_column data (int W) (i + num_rnn_steps config) =
             Inr (map (\<lambda>row. row ! (nat i + nat (num_rnn_steps config))) data)"
    using ns i by (auto simp: np_column_def Let_def k)
  show ?thesis
    by (simp add: window_def x col np_reshape2_column comp_def)
qed

lemma row_major_take:
  assumes "r * c \<le> length xs"
  shows "row_major (take (r * c) xs) r c = row_major xs r c"
  by (rule nth_equalityI) (simp_all add: length_row_major row_major_nth assms, simp add: row_major_def)

lemma token_grid_pos:
  assumes "0 < batch_size config"
  shows "token_grid config ws =
           Inr (row_major ws (nat (batch_size config)) (length ws div nat (batch_size config)))"
proof -
  define B where "B = nat (batch_size config)"
  define W where "W = length ws div B"
  have B: "batch_size config = int B" "0 < B" using assms by (simp_all add: B_def)
  have le: "B * W \<le> length ws" by (simp add: W_def)
  have bw: "batch_width config ws = Inr (int W)"
    using batch_width_pos [OF assms] by (simp add: W_def B_def)
  have "token_grid config ws = np_reshape2 (py_slice ws 0 (int (B * W))) (int B) (int W)"
    by (simp add: token_grid_def bw B(1))
  also have "\<dots> = np_reshape2 (take (B * W) ws) (int B) (int W)"
    by (simp only: py_slice_prefix [OF le])
  also have "\<dots> = Inr (row_major (take (B * W) ws) B W)"
    using le by (intro np_reshape2_exact) simp
  finally show ?thesis using row_major_take [OF le] by (simp add: B_def W_def)
qed

lemma set_shuffle_index:
  assumes "\<And>xs. mset (shuffle xs) = mset xs"
  shows "set (shuffle_index shuffle config bw) = {0..bw - num_rnn_steps config - 2}"
proof -
  have "set (shuffle (py_range (bw - num_rnn_steps config - 1))) =
        set (py_range (bw - num_rnn_steps config - 1))"
    by (rule mset_eq_setD) (rule assms)
  then show ?thesis by (simp add: shuffle_index_def set_py_range)
qed

lemma feeder_closed_form:
  assumes bs: "0 < batch_size config"
    and ns: "0 \<le> num_rnn_steps config"
    and sh: "\<And>xs. mset (shuffle xs) = mset xs"
  shows "feeder shuffle config ws =
           Inr (map (\<lambda>i. spec_window
                            (row_major ws (nat (batch_size config)) (length ws div nat (batch_size config)))
                            (nat (num_rnn_steps config)) (nat i))
                 (shuffle_index shuffle config (int (length ws div nat (batch_size config)))))"
proof -
  define B where "B = nat (batch_size config)"
  define W where "W = length ws div B"
  define grid where "grid = row_major ws B W"
  have le: "B * W \<le> length ws" by (simp add: W_def)
  have bw: "batch_width config ws = Inr (int W)"
    using batch_width_pos [OF bs] by (simp add: W_def B_def)
  have tg: "token_grid config ws = Inr grid"
    using token_grid_pos [OF bs] by (simp add: grid_def W_def B_def)
  have rows: "length row = W" if "row \<in> set grid" for row
    using that row_major_row_length [of row B W ws] le
    by (simp add: grid_def row_major_take)
  have win: "window config grid (int W) i = Inr (spec_window grid (nat (num_rnn_steps config)) (nat i))"
    if "i \<in> set (shuffle_index shuffle config (int W))" for i
  proof -
    from that have "0 \<le> i" "i \<le> int W - num_rnn_steps config - 2"
      by (simp_all add: set_shuffle_index [OF sh])
    then have "0 \<le> i" "nat i + nat (num_rnn_steps config) < W"
      using ns by linarith+
    then show ?thesis
      using window_inside [OF rows ns] by (simp add: spec_window_def)
  qed
  have "feeder shuffle config ws =
          yield_each (window config grid (int W)) (shuffle_index shuffle config (int W))"
    by (simp add: feeder_def bw tg)
  also have "\<dots> = Inr (map (\<lambda>i. spec_window grid (nat (num_rnn_steps config)) (nat i))
                          (shuffle_index shuffle config (int W)))"
    by (rule yield_each_map) (rule win)
  finally show ?thesis by (simp add: grid_def W_def B_def)
qed


lemma distinct_shuffle_index:
  assumes "\<And>xs. mset (shuffle xs) = mset xs"
  shows "distinct (shuffle_index shuffle config bw)"
  using mset_eq_imp_distinct_iff [OF assms, of "py_range (bw - num_rnn_steps config - 1)"]
  by (simp add: shuffle_index_def distinct_py_range)


text \<open>Scenario A of the specification with the identity as the shuffle.\<close>

lemma feeder_scenario_A:
  "feeder (\<lambda>xs. xs) ((Config_init 10)\<lparr>batch_size := 2, num_rnn_steps := 2\<rparr>)
         [0, 1, 2, 3, 4, 5, 6, 7, 8, 9]
       = Inr [([[0, 1], [5, 6]], [[2], [7]]), ([[1, 2], [6, 7]], [[3], [8]])]
   \<and> epoch_len ((Config_init 10)\<lparr>batch_size := 2, num_rnn_steps := 2\<rparr>)
         [0, 1, 2, 3, 4, 5, 6, 7, 8, 9] = Inr 2"
proof -
  let ?c = "(Config_init 10)\<lparr>batch_size := 2, num_rnn_steps := 2\<rparr>"
  let ?ws = "[0, 1, 2, 3, 4, 5, 6, 7, 8, 9] :: int list"
  let ?grid = "[[0, 1, 2, 3, 4], [5, 6, 7, 8, 9]] :: int list list"
  have i: "shuffle_index (\<lambda>xs. xs) ?c 5 = [0, 1]"
    by (simp add: shuffle_index_def py_range_def Config_init_def upto.simps)
  have bw: "batch_width ?c ?ws = Inr 5"
    by (simp add: batch_width_def py_floordiv_def Config_init_def)
  have bsz: "batch_size ?c = 2" and nst: "num_rnn_steps ?c = 2"
    by (simp_all add: Config_init_def)
  have g: "row_major ?ws 2 5 = ?grid" by code_simp
  have tg: "token_grid ?c ?ws = Inr ?grid"
    by (simp add: token_grid_def bw bsz py_slice_def py_clip_def np_reshape2_def g)
  have c2: "row_major [2, 7 :: int] 2 (Suc 0) = [[2], [7]]"
    and c3: "row_major [3, 8 :: int] 2 (Suc 0) = [[3], [8]]"
    by code_simp+
  have w0: "window ?c ?grid 5 0 = Inr ([[0, 1], [5, 6]], [[2], [7]])"
    by (simp add: window_def py_slice_def py_clip_def np_column_def np_reshape2_def
        Config_init_def c2)
  have w1: "window ?c ?grid 5 1 = Inr ([[1, 2], [6, 7]], [[3], [8]])"
    by (simp add: window_def py_slice_def py_clip_def np_column_def np_reshape2_def
        Config_init_def c3)
  have "feeder (\<lambda>xs. xs) ?c ?ws
      = Inr [([[0, 1], [5, 6]], [[2], [7]]), ([[1, 2], [6, 7]], [[3], [8]])]"
    by (simp add: feeder_def bw tg i w0 w1)
  moreover have "epoch_len ?c ?ws = Inr 2"
    by (simp add: epoch_len_def bw nst)
  ultimately show ?thesis by blast
qed

section \<open>Claims about the batch feeder\<close>

text \<open>
  Claim C2. For a token stream \<open>ws\<close> of length \<open>L\<close> and \<open>num_rows = batch_size > 0\<close>
  (with a window width \<open>num_steps \<ge> 0\<close>), the grid has \<open>row_width = L div num_rows\<close>,
  \<open>num_rows * row_width \<le> L\<close>, row \<open>r\<close> is \<open>ws[r*row_width : r*row_width + row_width]\<close>,
  every yielded start column \<open>i\<close> has its window and its target inside the grid, the
  batch yielded for \<open>i\<close> is \<open>(grid[:, i : i+num_steps], grid[:, i+num_steps]\<close> as a
  column\<open>)\<close>, and the tokens after position \<open>num_rows * row_width\<close> have no influence on
  what the feeder yields.
\<close>

theorem feeder_grid_windows:
  fixes config :: Config and ws :: "int list"
  defines "B \<equiv> nat (batch_size config)"
    and "S \<equiv> nat (num_rnn_steps config)"
  defines "W \<equiv> length ws div B"
  defines "grid \<equiv> row_major ws B W"
  assumes bs: "0 < batch_size config"
    and ns: "0 \<le> num_rnn_steps config"
    and sh: "\<And>xs. mset (shuffle xs) = mset xs"
  shows "batch_width config ws = Inr (int W) \<and> B * W \<le> length ws
       \<and> token_grid config ws = Inr grid \<and> length grid = B
       \<and> (\<forall>r<B. grid ! r = take W (drop (r * W) ws) \<and> length (grid ! r) = W)
       \<and> (\<forall>i\<in>set (shuffle_index shuffle config (int W)). 0 \<le> i \<and> nat i + S < W)
       \<and> feeder shuffle config ws =
           Inr (map (\<lambda>i. spec_window grid S (nat i)) (shuffle_index shuffle config (int W)))
       \<and> feeder shuffle config (take (B * W) ws) = feeder shuffle config ws"
proof -
  have le: "B * W \<le> length ws" by (simp add: W_def)
  have Bpos: "0 < B" using bs by (simp add: B_def)
  have bw: "batch_width config ws = Inr (int W)"
    using batch_width_pos [OF bs] by (simp add: W_def B_def)
  have tg: "token_grid config ws = Inr grid"
    using token_grid_pos [OF bs] by (simp add: grid_def W_def B_def)
  have row: "grid ! r = take W (drop (r * W) ws) \<and> length (grid ! r) = W" if "r < B" for r
  proof -
    have "Suc r * W \<le> B * W" using that by (simp add: Suc_leI mult_le_mono1 del: mult_Suc)
    then have "r * W + W \<le> length ws" using le by simp
    then show ?thesis using that by (simp add: grid_def row_major_def)
  qed
  have idx: "0 \<le> i \<and> nat i + S < W" if "i \<in> set (shuffle_index shuffle config (int W))" for i
  proof -
    from that have "0 \<le> i" "i \<le> int W - num_rnn_steps config - 2"
      by (simp_all add: set_shuffle_index [OF sh])
    then show ?thesis using ns unfolding S_def by linarith
  qed
  have cf: "feeder shuffle config ws =
      Inr (map (\<lambda>i. spec_window grid S (nat i)) (shuffle_index shuffle config (int W)))"
    using feeder_closed_form [OF bs ns sh, of ws] by (simp add: grid_def W_def B_def S_def)
  have "length (take (B * W) ws) div B = W" using le Bpos by simp
  moreover have "row_major (take (B * W) ws) B W = grid"
    by (simp add: grid_def row_major_take [OF le])
  ultimately have "feeder shuffle config (take (B * W) ws) =
      Inr (map (\<lambda>i. spec_window grid S (nat i)) (shuffle_index shuffle config (int W)))"
    using feeder_closed_form [OF bs ns sh, of "take (B * W) ws"]
    by (simp add: B_def S_def)
  with cf have tr: "feeder shuffle config (take (B * W) ws) = feeder shuffle config ws"
    by simp
  have lg: "length grid = B" by (simp add: grid_def length_row_major)
  from row have rows: "\<forall>r<B. grid ! r = take W (drop (r * W) ws) \<and> length (grid ! r) = W"
    by blast
  from idx have idxs: "\<forall>i\<in>set (shuffle_index shuffle config (int W)). 0 \<le> i \<and> nat i + S < W"
    by blast
  show ?thesis using bw le tg lg rows idxs cf tr by blast
qed

text \<open>Scenario A of the specification, with the reversal as the shuffle.\<close>

theorem feeder_grid_windows_witness:
  "0 < batch_size ((Config_init 10)\<lparr>batch_size := 2, num_rnn_steps := 2\<rparr>)
   \<and> 0 \<le> num_rnn_steps ((Config_init 10)\<lparr>batch_size := 2, num_rnn_steps := 2\<rparr>)
   \<and> (\<forall>xs :: int list. mset (rev xs) = mset xs)
   \<and> token_grid ((Config_init 10)\<lparr>batch_size := 2, num_rnn_steps := 2\<rparr>) [0, 1, 2, 3, 4, 5, 6, 7, 8, 9]
       = Inr [[0, 1, 2, 3, 4], [5, 6, 7, 8, 9]]
   \<and> feeder rev ((Config_init 10)\<lparr>batch_size := 2, num_rnn_steps := 2\<rparr>) [0, 1, 2, 3, 4, 5, 6, 7, 8, 9]
       = Inr [([[1, 2], [6, 7]], [[3], [8]]), ([[0, 1], [5, 6]], [[2], [7]])]"
proof -
  let ?c = "(Config_init 10)\<lparr>batch_size := 2, num_rnn_steps := 2\<rparr>"
  let ?ws = "[0, 1, 2, 3, 4, 5, 6, 7, 8, 9] :: int list"
  let ?grid = "[[0, 1, 2, 3, 4], [5, 6, 7, 8, 9]] :: int list list"
  have h1: "0 < batch_size ?c" by (simp add: Config_init_def)
  have h2: "0 \<le> num_rnn_steps ?c" by (simp add: Config_init_def)
  have h3: "mset (rev xs) = mset xs" for xs :: "int list" by simp
  have B: "nat (batch_size ?c) = 2" and S: "nat (num_rnn_steps ?c) = 2"
    by (simp_all add: Config_init_def)
  have W: "length ?ws div 2 = 5" by simp
  have g: "row_major ?ws 2 5 = ?grid"
    by code_simp
  have i: "shuffle_index rev ?c (int 5) = [1, 0]"
    by (simp add: shuffle_index_def py_range_def Config_init_def upto.simps)
  have w: "map (\<lambda>i. spec_window ?grid 2 (nat i)) [1, 0 :: int]
      = [([[1, 2], [6, 7]], [[3], [8]]), ([[0, 1], [5, 6]], [[2], [7]])]"
    by (simp add: spec_window_def)
  note T = feeder_grid_windows [OF h1 h2 h3, of ?ws, unfolded B S W g i w]
  from T have "token_grid ?c ?ws = Inr ?grid"
    and "feeder rev ?c ?ws = Inr [([[1, 2], [6, 7]], [[3], [8]]), ([[0, 1], [5, 6]], [[2], [7]])]"
    by blast+
  with h1 h2 h3 show ?thesis by blast
qed




text \<open>
  Claim C4, amended. The start columns enumerated by the feeder are the integers
  \<open>0 .. row_width - num_steps - 2\<close>, each once; the start column
  \<open>row_width - num_steps - 1\<close>, whose target would be the last grid column, is never
  visited; the batches yielded are the windows at the enumerated start columns, in
  their order.
\<close>

theorem start_columns_enumerated:
  fixes config :: Config and ws :: "int list"
  defines "W \<equiv> length ws div nat (batch_size config)"
  assumes bs: "0 < batch_size config"
    and ns: "0 \<le> num_rnn_steps config"
    and sh: "\<And>xs. mset (shuffle xs) = mset xs"
  shows "set (shuffle_index shuffle config (int W)) = {0..int W - num_rnn_steps config - 2}
       \<and> distinct (shuffle_index shuffle config (int W))
       \<and> int W - num_rnn_steps config - 1 \<notin> set (shuffle_index shuffle config (int W))
       \<and> feeder shuffle config ws =
           Inr (map (\<lambda>i. spec_window (row_major ws (nat (batch_size config)) W)
                            (nat (num_rnn_steps config)) (nat i))
                 (shuffle_index shuffle config (int W)))"
  using feeder_closed_form [OF bs ns sh, of ws]
  by (simp add: set_shuffle_index [OF sh] distinct_shuffle_index [OF sh] W_def)

text \<open>Scenario A with three steps: the only start column is 0.\<close>

theorem start_columns_enumerated_witness:
  "0 < batch_size ((Config_init 10)\<lparr>batch_size := 2, num_rnn_steps := 3\<rparr>)
   \<and> 0 \<le> num_rnn_steps ((Config_init 10)\<lparr>batch_size := 2, num_rnn_steps := 3\<rparr>)
   \<and> (\<forall>xs :: int list. mset (rev xs) = mset xs)
   \<and> set (shuffle_index rev ((Config_init 10)\<lparr>batch_size := 2, num_rnn_steps := 3\<rparr>) 5) = {0..0}
   \<and> 1 \<notin> set (shuffle_index rev ((Config_init 10)\<lparr>batch_size := 2, num_rnn_steps := 3\<rparr>) 5)"
proof -
  let ?c = "(Config_init 10)\<lparr>batch_size := 2, num_rnn_steps := 3\<rparr>"
  let ?ws = "[0, 1, 2, 3, 4, 5, 6, 7, 8, 9] :: int list"
  have h1: "0 < batch_size ?c" by (simp add: Config_init_def)
  have h2: "0 \<le> num_rnn_steps ?c" by (simp add: Config_init_def)
  have h3: "mset (rev xs) = mset xs" for xs :: "int list" by simp
  have W: "int (length ?ws div nat (batch_size ?c)) = 5" by (simp add: Config_init_def)
  have n: "(5::int) - num_rnn_steps ?c - 2 = 0" "(5::int) - num_rnn_steps ?c - 1 = 1"
    by (simp_all add: Config_init_def)
  note T = start_columns_enumerated [OF h1 h2 h3, of ?ws, unfolded W n]
  from T have "set (shuffle_index rev ?c 5) = {0..0}" "1 \<notin> set (shuffle_index rev ?c 5)"
    by blast+
  with h1 h2 h3 show ?thesis by blast
qed

text \<open>
  Claim C4 as stated fails on scenario A: the start columns are 0 and 1, column
  \<open>5 - 2 - 1 = 2\<close> is missing, and the window whose target is the last grid column
  \<open>([[2, 3], [7, 8]], [[4], [9]])\<close> is not yielded.
\<close>

theorem last_start_column_counterexample:
  "shuffle_index (\<lambda>xs. xs) ((Config_init 10)\<lparr>batch_size := 2, num_rnn_steps := 2\<rparr>) 5 = [0, 1]
   \<and> 5 - num_rnn_steps ((Config_init 10)\<lparr>batch_size := 2, num_rnn_steps := 2\<rparr>) - 1
       \<notin> set (shuffle_index (\<lambda>xs. xs) ((Config_init 10)\<lparr>batch_size := 2, num_rnn_steps := 2\<rparr>) 5)
   \<and> feeder (\<lambda>xs. xs) ((Config_init 10)\<lparr>batch_size := 2, num_rnn_steps := 2\<rparr>)
         [0, 1, 2, 3, 4, 5, 6, 7, 8, 9]
       = Inr [([[0, 1], [5, 6]], [[2], [7]]), ([[1, 2], [6, 7]], [[3], [8]])]"
proof -
  let ?c = "(Config_init 10)\<lparr>batch_size := 2, num_rnn_steps := 2\<rparr>"
  let ?ws = "[0, 1, 2, 3, 4, 5, 6, 7, 8, 9] :: int list"
  let ?grid = "[[0, 1, 2, 3, 4], [5, 6, 7, 8, 9]] :: int list list"
  have i: "shuffle_index (\<lambda>xs. xs) ?c 5 = [0, 1]"
    by (simp add: shuffle_index_def py_range_def Config_init_def upto.simps)
  have bw: "batch_width ?c ?ws = Inr 5"
    by (simp add: batch_width_def py_floordiv_def Config_init_def)
  have bsz: "batch_size ?c = 2" by (simp add: Config_init_def)
  have g: "row_major ?ws 2 5 = ?grid" by code_simp
  have tg: "token_grid ?c ?ws = Inr ?grid"
    by (simp add: token_grid_def bw bsz py_slice_def py_clip_def np_reshape2_def g)
  have c2: "row_major [2, 7 :: int] 2 (Suc 0) = [[2], [7]]"
    and c3: "row_major [3, 8 :: int] 2 (Suc 0) = [[3], [8]]"
    by code_simp+
  have w0: "window ?c ?grid 5 0 = Inr ([[0, 1], [5, 6]], [[2], [7]])"
    by (simp add: window_def py_slice_def py_clip_def np_column_def np_reshape2_def
        Config_init_def c2)
  have w1: "window ?c ?grid 5 1 = Inr ([[1, 2], [6, 7]], [[3], [8]])"
    by (simp add: window_def py_slice_def py_clip_def np_column_def np_reshape2_def
        Config_init_def c3)
  have "feeder (\<lambda>xs. xs) ?c ?ws
      = Inr [([[0, 1], [5, 6]], [[2], [7]]), ([[1, 2], [6, 7]], [[3], [8]])]"
    by (simp add: feeder_def bw tg i w0 w1)
  moreover have "num_rnn_steps ?c = 2" by (simp add: Config_init_def)
  then have "5 - num_rnn_steps ?c - 1 \<notin> set (shuffle_index (\<lambda>xs. xs) ?c 5)"
    by (simp add: i)
  ultimately show ?thesis using i by blast
qed

text \<open>
  Claim C8, amended. The code validates nothing and has no configuration error:
  with \<open>batch_size = 0\<close> the feeder and \<open>epoch_len\<close> raise \<^verbatim>\<open>ZeroDivisionError\<close> from the
  integer division, with a negative \<open>batch_size\<close> the reshape raises \<^verbatim>\<open>ValueError\<close>,
  and with a positive \<open>batch_size\<close> and \<open>row_width < num_steps + 1\<close> nothing is raised:
  the feeder yields the empty sequence and \<open>epoch_len\<close> returns a negative number.
\<close>

theorem invalid_configuration_behaviour:
  "(batch_size config = 0 \<longrightarrow>
      feeder shuffle config ws = Inl ZeroDivisionError \<and> epoch_len config ws = Inl ZeroDivisionError)
 \<and> (batch_size config < 0 \<longrightarrow> feeder shuffle config ws = Inl ValueError)
 \<and> (0 < batch_size config \<and> (\<forall>xs. mset (shuffle xs) = mset xs)
      \<and> int (length ws) div batch_size config < num_rnn_steps config + 1 \<longrightarrow>
      feeder shuffle config ws = Inr []
      \<and> epoch_len config ws = Inr (int (length ws) div batch_size config - num_rnn_steps config - 1)
      \<and> int (length ws) div batch_size config - num_rnn_steps config - 1 < 0)"
proof (intro conjI impI)
  assume "batch_size config = 0"
  then show "feeder shuffle config ws = Inl ZeroDivisionError"
    by (simp add: feeder_def batch_width_def py_floordiv_def)
next
  assume "batch_size config = 0"
  then show "epoch_len config ws = Inl ZeroDivisionError"
    by (simp add: epoch_len_def batch_width_def py_floordiv_def)
next
  assume neg: "batch_size config < 0"
  define bw where "bw = int (length ws) div batch_size config"
  have bw: "batch_width config ws = Inr bw"
    using neg by (simp add: batch_width_def py_floordiv_def bw_def)
  have "bw \<le> 0" unfolding bw_def using neg by (simp add: div_nonneg_neg_le0)
  then have "np_reshape2 xs (batch_size config) bw = Inl ValueError" for xs :: "int list"
    using neg by (auto simp: np_reshape2_def Let_def)
  then show "feeder shuffle config ws = Inl ValueError"
    by (simp add: feeder_def bw token_grid_def)
next
  assume a: "0 < batch_size config \<and> (\<forall>xs. mset (shuffle xs) = mset xs)
      \<and> int (length ws) div batch_size config < num_rnn_steps config + 1"
  then have bs: "0 < batch_size config" and sh: "\<And>xs. mset (shuffle xs) = mset xs"
    and short: "int (length ws) div batch_size config < num_rnn_steps config + 1"
    by simp_all
  define W where "W = length ws div nat (batch_size config)"
  have W: "int (length ws) div batch_size config = int W"
    using bs by (simp add: W_def zdiv_int)
  have bw: "batch_width config ws = Inr (int W)"
    using batch_width_pos [OF bs] by (simp add: W_def)
  have "shuffle_index shuffle config (int W) = []"
    using short W by (simp add: shuffle_index_def py_range_nonpos shuffle_Nil [OF sh])
  then show "feeder shuffle config ws = Inr []"
    using token_grid_pos [OF bs, of ws] by (simp add: feeder_def bw)
  show "epoch_len config ws = Inr (int (length ws) div batch_size config - num_rnn_steps config - 1)"
    by (simp add: epoch_len_def bw W)
  show "int (length ws) div batch_size config - num_rnn_steps config - 1 < 0"
    using short by simp
qed

text \<open>Six tokens with \<open>batch_size\<close> 0, \<open>- 2\<close> and 32.\<close>

theorem invalid_configuration_behaviour_witness:
  "batch_size ((Config_init 6)\<lparr>batch_size := 0\<rparr>) = 0
   \<and> feeder rev ((Config_init 6)\<lparr>batch_size := 0\<rparr>) [1, 2, 3, 4, 5, 6] = Inl ZeroDivisionError
   \<and> epoch_len ((Config_init 6)\<lparr>batch_size := 0\<rparr>) [1, 2, 3, 4, 5, 6] = Inl ZeroDivisionError
   \<and> batch_size ((Config_init 6)\<lparr>batch_size := - 2\<rparr>) < 0
   \<and> feeder rev ((Config_init 6)\<lparr>batch_size := - 2\<rparr>) [1, 2, 3, 4, 5, 6] = Inl ValueError
   \<and> 0 < batch_size (Config_init 6)
   \<and> (\<forall>xs :: int list. mset (rev xs) = mset xs)
   \<and> int (length [1, 2, 3, 4, 5, 6 :: int]) div batch_size (Config_init 6)
       < num_rnn_steps (Config_init 6) + 1
   \<and> feeder rev (Config_init 6) [1, 2, 3, 4, 5, 6] = Inr []
   \<and> epoch_len (Config_init 6) [1, 2, 3, 4, 5, 6] = Inr (- 21)"
proof -
  let ?ws = "[1, 2, 3, 4, 5, 6] :: int list"
  have z: "batch_size ((Config_init 6)\<lparr>batch_size := 0\<rparr>) = 0" by simp
  have n: "batch_size ((Config_init 6)\<lparr>batch_size := - 2\<rparr>) < 0" by simp
  have p: "0 < batch_size (Config_init 6) \<and> (\<forall>xs :: int list. mset (rev xs) = mset xs)
      \<and> int (length ?ws) div batch_size (Config_init 6) < num_rnn_steps (Config_init 6) + 1"
    by (simp add: Config_init_def)
  have v: "int (length ?ws) div batch_size (Config_init 6) - num_rnn_steps (Config_init 6) - 1 = - 21"
    by (simp add: Config_init_def)
  from invalid_configuration_behaviour [of "(Config_init 6)\<lparr>batch_size := 0\<rparr>" rev ?ws] z
  have a: "feeder rev ((Config_init 6)\<lparr>batch_size := 0\<rparr>) ?ws = Inl ZeroDivisionError"
    "epoch_len ((Config_init 6)\<lparr>batch_size := 0\<rparr>) ?ws = Inl ZeroDivisionError"
    by blast+
  from invalid_configuration_behaviour [of "(Config_init 6)\<lparr>batch_size := - 2\<rparr>" rev ?ws] n
  have b: "feeder rev ((Config_init 6)\<lparr>batch_size := - 2\<rparr>) ?ws = Inl ValueError"
    by blast
  from invalid_configuration_behaviour [of "Config_init 6" rev ?ws] p
  have c: "feeder rev (Config_init 6) ?ws = Inr []"
    "epoch_len (Config_init 6) ?ws
       = Inr (int (length ?ws) div batch_size (Config_init 6) - num_rnn_steps (Config_init 6) - 1)"
    by blast+
  from c(2) have c2: "epoch_len (Config_init 6) ?ws = Inr (- 21)" by (simp only: v)
  from z n p a b c(1) c2 show ?thesis by blast
qed

text \<open>
  Claim C8 as stated fails: with six tokens, three rows and \<open>num_steps = 4\<close> the row
  width 2 is below \<open>num_steps + 1\<close>, yet the grid is built and the feeder returns
  normally.
\<close>

theorem missing_config_error_counterexample:
  "token_grid ((Config_init 6)\<lparr>batch_size := 3, num_rnn_steps := 4\<rparr>) [1, 2, 3, 4, 5, 6]
       = Inr [[1, 2], [3, 4], [5, 6]]
   \<and> feeder rev ((Config_init 6)\<lparr>batch_size := 3, num_rnn_steps := 4\<rparr>) [1, 2, 3, 4, 5, 6]
       = Inr []
   \<and> epoch_len ((Config_init 6)\<lparr>batch_size := 3, num_rnn_steps := 4\<rparr>) [1, 2, 3, 4, 5, 6]
       = Inr (- 3)"
proof -
  let ?c = "(Config_init 6)\<lparr>batch_size := 3, num_rnn_steps := 4\<rparr>"
  let ?ws = "[1, 2, 3, 4, 5, 6] :: int list"
  have bw: "batch_width ?c ?ws = Inr 2"
    by (simp add: batch_width_def py_floordiv_def Config_init_def)
  have bsz: "batch_size ?c = 3" by (simp add: Config_init_def)
  have g: "row_major ?ws 3 2 = [[1, 2], [3, 4], [5, 6]]" by code_simp
  have tg: "token_grid ?c ?ws = Inr [[1, 2], [3, 4], [5, 6]]"
    by (simp add: token_grid_def bw bsz py_slice_def py_clip_def np_reshape2_def g)
  have i: "shuffle_index rev ?c 2 = []"
    by (simp add: shuffle_index_def py_range_def Config_init_def)
  have "feeder rev ?c ?ws = Inr []"
    by (simp add: feeder_def bw tg i)
  moreover have "num_rnn_steps ?c = 4" by (simp add: Config_init_def)
  then have "epoch_len ?c ?ws = Inr (- 3)"
    by (simp add: epoch_len_def bw)
  ultimately show ?thesis using tg by blast
qed




section \<open>Facts about the moving-average buffer\<close>

lemma length_foldl_store: "length (foldl (store L) buf ps) = length buf"
  by (induction ps arbitrary: buf) (simp_all add: store_def)

lemma mod_shift_neq:
  fixes a :: int
  assumes "0 < d" "d < L"
  shows "(a + d) mod L \<noteq> a mod L"
proof
  assume "(a + d) mod L = a mod L"
  then have "L dvd (a + d) - a" by (simp only: mod_eq_dvd_iff)
  then have "L dvd d" by simp
  with assms show False by (simp add: zdvd_not_zless)
qed

lemma ring_invariant:
  assumes L: "0 < L" "length buf = L"
  shows "j < n \<Longrightarrow> n \<le> j + L \<Longrightarrow>
         foldl (store L) buf (map (\<lambda>k. (f k, s0 + int k)) [0..<n])
           ! nat ((s0 + int j) mod int L) = f j"
proof (induction n)
  case 0
  then show ?case by simp
next
  case (Suc n)
  let ?b = "foldl (store L) buf (map (\<lambda>k. (f k, s0 + int k)) [0..<n])"
  have len: "length ?b = L" by (simp add: length_foldl_store L)
  have idx: "nat (x mod int L) < L" for x :: int
    using L(1) by (simp add: nat_less_iff)
  have step: "foldl (store L) buf (map (\<lambda>k. (f k, s0 + int k)) [0..<Suc n])
      = ?b[nat ((s0 + int n) mod int L) := f n]"
    by (simp add: store_def)
  show ?case
  proof (cases "j = n")
    case True
    then show ?thesis unfolding step using idx len by simp
  next
    case False
    with Suc.prems have jn: "j < n" "n \<le> j + L" by simp_all
    have "0 < int n - int j" "int n - int j < int L" using jn Suc.prems by linarith+
    then have "(s0 + int j + (int n - int j)) mod int L \<noteq> (s0 + int j) mod int L"
      by (rule mod_shift_neq)
    then have "(s0 + int n) mod int L \<noteq> (s0 + int j) mod int L" by simp
    moreover have "0 \<le> (s0 + int n) mod int L" "0 \<le> (s0 + int j) mod int L"
      using L(1) by simp_all
    ultimately have "nat ((s0 + int n) mod int L) \<noteq> nat ((s0 + int j) mod int L)"
      by (simp add: nat_eq_iff)
    then show ?thesis unfolding step using Suc.IH [OF jn] by simp
  qed
qed

lemma ring_holds_last:
  assumes L: "0 < L" "length buf = L" and n: "L \<le> n"
  shows "mset (foldl (store L) buf (map (\<lambda>k. (f k, s0 + int k)) [0..<n]))
       = mset (map f [n - L..<n])"
proof -
  let ?b = "foldl (store L) buf (map (\<lambda>k. (f k, s0 + int k)) [0..<n])"
  define m where "m = n - L"
  define g where "g k = nat ((s0 + int (m + k)) mod int L)" for k
  have len: "length ?b = L" by (simp add: length_foldl_store L)
  have at: "?b ! g k = f (m + k)" if "k < L" for k
    unfolding g_def using that n by (intro ring_invariant [OF L]) (simp_all add: m_def)
  have into: "g ` {0..<L} \<subseteq> {0..<L}"
    using L(1) by (auto simp: g_def nat_less_iff)
  have inj: "inj_on g {0..<L}"
  proof (rule inj_onI)
    fix x y assume xy: "x \<in> {0..<L}" "y \<in> {0..<L}" and eq: "g x = g y"
    show "x = y"
    proof (rule ccontr)
      assume ne: "x \<noteq> y"
      have mods: "(s0 + int (m + x)) mod int L = (s0 + int (m + y)) mod int L"
        using eq L(1) unfolding g_def by (simp add: nat_eq_iff)
      show False
      proof (cases "x < y")
        case True
        then have "0 < int y - int x" "int y - int x < int L" using xy by auto
        then have "(s0 + int (m + x) + (int y - int x)) mod int L \<noteq> (s0 + int (m + x)) mod int L"
          by (rule mod_shift_neq)
        with mods show False by simp
      next
        case False
        with ne have "0 < int x - int y" "int x - int y < int L" using xy by auto
        then have "(s0 + int (m + y) + (int x - int y)) mod int L \<noteq> (s0 + int (m + y)) mod int L"
          by (rule mod_shift_neq)
        with mods show False by simp
      qed
    qed
  qed
  have img: "g ` {0..<L} = {0..<L}"
    by (rule endo_inj_surj) (simp_all add: into inj)
  have "mset ?b = mset (map (nth ?b) [0..<L])"
    using map_nth [of ?b] len by simp
  also have "\<dots> = image_mset (nth ?b) (mset_set {0..<L})"
    by simp
  also have "\<dots> = image_mset (nth ?b) (mset_set (g ` {0..<L}))"
    by (simp only: img)
  also have "\<dots> = image_mset (nth ?b) (image_mset g (mset_set {0..<L}))"
    by (simp only: image_mset_mset_set [OF inj])
  also have "\<dots> = image_mset (\<lambda>k. f (m + k)) (mset_set {0..<L})"
    unfolding multiset.map_comp comp_def
    by (rule image_mset_cong) (simp add: at)
  also have "\<dots> = mset (map (\<lambda>k. f (m + k)) [0..<L])"
    by simp
  also have "map (\<lambda>k. f (m + k)) [0..<L] = map f [m..<m + L]"
    by (simp add: map_add_upt [symmetric] add.commute)
  finally show ?thesis using n by (simp add: m_def)
qed

lemma length_run_trace: "length (run_trace run sess ts) = length ts"
  by (induction ts arbitrary: sess) (simp_all split: prod.splits)

lemma run_trace_take: "run_trace run sess (take k ts) = take k (run_trace run sess ts)"
proof (induction ts arbitrary: sess k)
  case Nil
  then show ?case by simp
next
  case (Cons t ts)
  then show ?case by (cases k) (simp_all split: prod.splits)
qed

lemma train_batches_trace:
  "snd (train_batches run (sess, buf) ts) = foldl (store move_avg_len) buf (run_trace run sess ts)"
  by (induction ts arbitrary: sess buf) (simp_all add: store_def split: prod.splits)

lemma trace_as_map:
  assumes "map snd tr = map (\<lambda>k. s0 + int k) [0..<length tr]"
  shows "tr = map (\<lambda>k. (fst (tr ! k), s0 + int k)) [0..<length tr]"
proof (rule nth_equalityI)
  show "length tr = length (map (\<lambda>k. (fst (tr ! k), s0 + int k)) [0..<length tr])" by simp
  fix i assume i: "i < length tr"
  then have "snd (tr ! i) = map snd tr ! i" by simp
  also have "\<dots> = s0 + int i" using i by (simp only: assms) simp
  finally show "tr ! i = map (\<lambda>k. (fst (tr ! k), s0 + int k)) [0..<length tr] ! i"
    using i by (simp add: prod_eq_iff)
qed

lemma train_batches_append:
  "train_batches run (sess, buf) (xs @ ys) = train_batches run (train_batches run (sess, buf) xs) ys"
  by (induction xs arbitrary: sess buf) (simp_all split: prod.splits)

lemma train_epoch_pair:
  "train_epoch run st batches =
     (train_batches run st batches, np_mean (snd (train_batches run st batches)))"
  by (simp add: train_epoch_def split: prod.splits)

lemma train_epochs_feeds:
  "map (\<lambda>e. feeder (shuffle e) config ws) es = map Inr bss \<Longrightarrow>
   train_epochs run shuffle config ws es ((sess, buf), printed) =
     Inr (train_batches run (sess, buf) (concat bss),
          printed @ map (\<lambda>j. np_mean (snd (train_batches run (sess, buf) (concat (take (Suc j) bss)))))
                      [0..<length bss])"
proof (induction es arbitrary: bss sess buf printed)
  case Nil
  then show ?case by simp
next
  case (Cons e es)
  from Cons.prems obtain b rest where bss: "bss = b # rest"
    and fe: "feeder (shuffle e) config ws = Inr b"
    and frest: "map (\<lambda>e. feeder (shuffle e) config ws) es = map Inr rest"
    by (cases bss) auto
  obtain sess' buf' where st': "train_batches run (sess, buf) b = (sess', buf')"
    by (cases "train_batches run (sess, buf) b") auto
  have app: "train_batches run (sess, buf) (b @ zs) = train_batches run (sess', buf') zs" for zs
    by (simp add: train_batches_append st')
  have "train_epochs run shuffle config ws (e # es) ((sess, buf), printed)
      = train_epochs run shuffle config ws es ((sess', buf'), printed @ [np_mean buf'])"
    by (simp add: fe train_epoch_pair st')
  also have "\<dots> = Inr (train_batches run (sess', buf') (concat rest),
          (printed @ [np_mean buf']) @
            map (\<lambda>j. np_mean (snd (train_batches run (sess', buf') (concat (take (Suc j) rest)))))
              [0..<length rest])"
    by (rule Cons.IH [OF frest])
  also have "\<dots> = Inr (train_batches run (sess, buf) (concat bss),
          printed @ map (\<lambda>j. np_mean (snd (train_batches run (sess, buf) (concat (take (Suc j) bss)))))
                      [0..<length bss])"
    by (simp add: bss app st' map_upt_Suc del: upt_Suc)
  finally show ?case .
qed

lemma length_buffer_from_zeros:
  "length (snd (train_batches run (sess, replicate move_avg_len 0) ts)) = move_avg_len"
  by (simp add: train_batches_trace length_foldl_store)

section \<open>Claims about the trainer\<close>

text \<open>
  Claim C9. The buffer \<^verbatim>\<open>move_avg_loss\<close> starts as \<^verbatim>\<open>np.zeros(move_avg_len)\<close> and keeps
  the length \<open>move_avg_len\<close> after any number of batches. Processing the batch for which
  \<^verbatim>\<open>sess.run\<close> returns the loss \<open>l\<close> and the global step \<open>s\<close> stores \<open>l\<close> in slot
  \<open>s mod move_avg_len\<close> and changes no other slot, for every batch. When the fetched
  steps are consecutive and at least \<open>move_avg_len\<close> batches have run, the buffer holds
  exactly the losses of the last \<open>move_avg_len\<close> batches and its mean is their mean. The
  value reported at the end of every epoch, short or long, is the sum of the buffer
  divided by its length; in a run of \<^verbatim>\<open>train\<close> whose feeder yields the batches \<open>bss\<close> for
  the epochs (with a total that the progress bar, left out of the model, accepts), the
  values printed are these means of the buffer built from the zeros by all batches up
  to the end of each epoch.
\<close>

theorem moving_average_buffer:
  fixes run :: "'s sess_run"
  shows "(\<forall>j. length (snd (train_batches run (sess, replicate move_avg_len 0) (take j ts)))
             = move_avg_len)
       \<and> (\<forall>k<length ts.
            snd (train_batches run (sess, replicate move_avg_len 0) (take (Suc k) ts)) =
              (snd (train_batches run (sess, replicate move_avg_len 0) (take k ts)))
                [nat (snd (run_trace run sess ts ! k) mod int move_avg_len) :=
                   fst (run_trace run sess ts ! k)]
          \<and> nat (snd (run_trace run sess ts ! k) mod int move_avg_len) < move_avg_len
          \<and> snd (train_batches run (sess, replicate move_avg_len 0) (take (Suc k) ts))
                ! nat (snd (run_trace run sess ts ! k) mod int move_avg_len)
              = fst (run_trace run sess ts ! k)
          \<and> (\<forall>i<move_avg_len. i \<noteq> nat (snd (run_trace run sess ts ! k) mod int move_avg_len) \<longrightarrow>
                snd (train_batches run (sess, replicate move_avg_len 0) (take (Suc k) ts)) ! i
                  = snd (train_batches run (sess, replicate move_avg_len 0) (take k ts)) ! i))
       \<and> (map snd (run_trace run sess ts) = map (\<lambda>k. s0 + int k) [0..<length ts]
            \<and> move_avg_len \<le> length ts \<longrightarrow>
          mset (snd (train_batches run (sess, replicate move_avg_len 0) ts)) =
            mset (map fst (drop (length ts - move_avg_len) (run_trace run sess ts)))
          \<and> np_mean (snd (train_batches run (sess, replicate move_avg_len 0) ts)) =
              sum_list (map fst (drop (length ts - move_avg_len) (run_trace run sess ts)))
                / real move_avg_len)
       \<and> (\<forall>st batches.
            fst (train_epoch run st batches) = train_batches run st batches
          \<and> snd (train_epoch run st batches) =
              sum_list (snd (train_batches run st batches))
                / real (length (snd (train_batches run st batches))))
       \<and> (map (\<lambda>e. feeder (shuffle e) config ws) [0..<nat (epochs config)] = map Inr bss
            \<and> epoch_len config ws = Inr tot \<and> 0 \<le> tot \<longrightarrow>
          train run shuffle config ws sess =
            Inr (train_batches run (sess, replicate move_avg_len 0) (concat bss),
                 map (\<lambda>j. sum_list (snd (train_batches run (sess, replicate move_avg_len 0)
                                            (concat (take (Suc j) bss))))
                            / real move_avg_len)
                   [0..<length bss]))"
proof -
  let ?z = "replicate move_avg_len (0::real)"
  let ?tr = "run_trace run sess ts"
  let ?L = "move_avg_len"
  let ?buf = "\<lambda>xs. snd (train_batches run (sess, ?z) xs)"
  have Lpos: "0 < ?L" by (simp add: move_avg_len_def)
  have ltr: "length ?tr = length ts" by (rule length_run_trace)
  have len: "length (?buf xs) = ?L" for xs by (rule length_buffer_from_zeros)
  have A: "\<forall>j. length (?buf (take j ts)) = ?L" using len by blast
  have one: "?buf (take (Suc k) ts) = (?buf (take k ts))[nat (snd (?tr ! k) mod int ?L) := fst (?tr ! k)]
          \<and> nat (snd (?tr ! k) mod int ?L) < ?L
          \<and> ?buf (take (Suc k) ts) ! nat (snd (?tr ! k) mod int ?L) = fst (?tr ! k)
          \<and> (\<forall>i<?L. i \<noteq> nat (snd (?tr ! k) mod int ?L) \<longrightarrow>
                ?buf (take (Suc k) ts) ! i = ?buf (take k ts) ! i)"
    if k: "k < length ts" for k
  proof -
    have "take (Suc k) ?tr = take k ?tr @ [?tr ! k]"
      using k ltr by (simp add: take_Suc_conv_app_nth)
    then have upd: "?buf (take (Suc k) ts) =
        (?buf (take k ts))[nat (snd (?tr ! k) mod int ?L) := fst (?tr ! k)]"
      by (simp add: train_batches_trace run_trace_take store_def)
    have slot: "nat (snd (?tr ! k) mod int ?L) < ?L"
      using Lpos by (simp add: nat_less_iff)
    show ?thesis unfolding upd using slot len [of "take k ts"] by simp
  qed
  then have B: "\<forall>k<length ts.
      ?buf (take (Suc k) ts) = (?buf (take k ts))[nat (snd (?tr ! k) mod int ?L) := fst (?tr ! k)]
          \<and> nat (snd (?tr ! k) mod int ?L) < ?L
          \<and> ?buf (take (Suc k) ts) ! nat (snd (?tr ! k) mod int ?L) = fst (?tr ! k)
          \<and> (\<forall>i<?L. i \<noteq> nat (snd (?tr ! k) mod int ?L) \<longrightarrow>
                ?buf (take (Suc k) ts) ! i = ?buf (take k ts) ! i)"
    by blast
  have C: "mset (?buf ts) = mset (map fst (drop (length ts - ?L) ?tr))
         \<and> np_mean (?buf ts) = sum_list (map fst (drop (length ts - ?L) ?tr)) / real ?L"
    if steps: "map snd ?tr = map (\<lambda>k. s0 + int k) [0..<length ts]" and enough: "?L \<le> length ts"
  proof -
    have tr: "?tr = map (\<lambda>k. (fst (?tr ! k), s0 + int k)) [0..<length ts]"
      using trace_as_map [of ?tr s0] steps ltr by simp
    have zl: "length ?z = ?L" by simp
    have "mset (?buf ts) =
        mset (foldl (store ?L) ?z (map (\<lambda>k. (fst (?tr ! k), s0 + int k)) [0..<length ts]))"
      using tr by (simp add: train_batches_trace)
    also have "\<dots> = mset (map (\<lambda>k. fst (?tr ! k)) [length ts - ?L..<length ts])"
      by (rule ring_holds_last [OF Lpos zl enough])
    also have "map (\<lambda>k. fst (?tr ! k)) [length ts - ?L..<length ts]
        = map fst (drop (length ts - ?L) ?tr)"
      by (rule nth_equalityI) (simp_all add: ltr)
    finally have ms: "mset (?buf ts) = mset (map fst (drop (length ts - ?L) ?tr))" .
    then have "sum_list (?buf ts) = sum_list (map fst (drop (length ts - ?L) ?tr))"
      by (metis sum_mset_sum_list)
    then have "np_mean (?buf ts) = sum_list (map fst (drop (length ts - ?L) ?tr)) / real ?L"
      by (simp add: np_mean_def len)
    with ms show ?thesis by blast
  qed
  have D: "\<forall>st batches.
            fst (train_epoch run st batches) = train_batches run st batches
          \<and> snd (train_epoch run st batches) =
              sum_list (snd (train_batches run st batches))
                / real (length (snd (train_batches run st batches)))"
    by (simp add: train_epoch_pair np_mean_def)
  have E: "train run shuffle config ws sess =
            Inr (train_batches run (sess, ?z) (concat bss),
                 map (\<lambda>j. sum_list (?buf (concat (take (Suc j) bss))) / real ?L) [0..<length bss])"
    if "map (\<lambda>e. feeder (shuffle e) config ws) [0..<nat (epochs config)] = map Inr bss"
  proof -
    have "map (\<lambda>j. np_mean (?buf (concat (take (Suc j) bss)))) [0..<length bss]
        = map (\<lambda>j. sum_list (?buf (concat (take (Suc j) bss))) / real ?L) [0..<length bss]"
      by (simp add: np_mean_def len)
    then show ?thesis
      unfolding train_def using train_epochs_feeds [OF that, of run sess ?z "[]"] by simp
  qed
  show ?thesis using A B C D E by blast
qed

text \<open>
  Twenty-one batches on a session that counts its steps from 0 and returns the step
  number as the loss: the buffer ends with the losses 20, 1, 2, \<dots>, 19. Two epochs of
  scenario A on the same session: after two batches the buffer holds 0 and 1 and the
  report is \<open>1/20\<close>, after four it holds 0, 1, 2, 3 and the report is \<open>3/10\<close>.
\<close>

theorem moving_average_buffer_witness:
  "map snd (run_trace (\<lambda>sess t. (sess + 1, real_of_int sess, sess)) (0::int)
                 (replicate 21 ([], [])))
       = map (\<lambda>k. 0 + int k) [0..<length (replicate 21 ([], []) :: batch list)]
   \<and> move_avg_len \<le> length (replicate 21 ([], []) :: batch list)
   \<and> np_mean (snd (train_batches (\<lambda>sess t. (sess + 1, real_of_int sess, sess))
            (0::int, replicate move_avg_len 0) (replicate 21 ([], [])))) = 21 / 2
   \<and> map (\<lambda>e. feeder ((\<lambda>e xs. xs) e)
                  ((Config_init 10)\<lparr>batch_size := 2, num_rnn_steps := 2\<rparr>)
                  [0, 1, 2, 3, 4, 5, 6, 7, 8, 9])
         [0..<nat (epochs ((Config_init 10)\<lparr>batch_size := 2, num_rnn_steps := 2\<rparr>))]
       = map Inr [[([[0, 1], [5, 6]], [[2], [7]]), ([[1, 2], [6, 7]], [[3], [8]])],
                  [([[0, 1], [5, 6]], [[2], [7]]), ([[1, 2], [6, 7]], [[3], [8]])]]
   \<and> epoch_len ((Config_init 10)\<lparr>batch_size := 2, num_rnn_steps := 2\<rparr>)
         [0, 1, 2, 3, 4, 5, 6, 7, 8, 9] = Inr 2
   \<and> (0::int) \<le> 2
   \<and> train (\<lambda>sess t. (sess + 1, real_of_int sess, sess)) (\<lambda>e xs. xs)
         ((Config_init 10)\<lparr>batch_size := 2, num_rnn_steps := 2\<rparr>)
         [0, 1, 2, 3, 4, 5, 6, 7, 8, 9] (0::int)
       = Inr ((4, [0, 1, 2, 3] @ replicate 16 0), [1 / 20, 3 / 10])"
proof -
  let ?run = "\<lambda>(sess::int) (t::batch). (sess + 1, real_of_int sess, sess)"
  let ?ts = "replicate 21 ([], []) :: batch list"
  let ?c = "(Config_init 10)\<lparr>batch_size := 2, num_rnn_steps := 2\<rparr>"
  let ?ws = "[0, 1, 2, 3, 4, 5, 6, 7, 8, 9] :: int list"
  let ?b = "[([[0, 1], [5, 6]], [[2], [7]]), ([[1, 2], [6, 7]], [[3], [8]])] :: batch list"
  have h1: "map snd (run_trace ?run 0 ?ts) = map (\<lambda>k. 0 + int k) [0..<length ?ts]"
    by code_simp
  have h2: "move_avg_len \<le> length ?ts"
    by (simp add: move_avg_len_def)
  have v: "sum_list (map fst (drop (length ?ts - move_avg_len) (run_trace ?run 0 ?ts)))
             / real move_avg_len = 21 / 2"
    by code_simp
  have ep: "nat (epochs ?c) = 2" by (simp add: Config_init_def)
  have h3: "map (\<lambda>e. feeder ((\<lambda>e xs. xs) e) ?c ?ws) [0..<nat (epochs ?c)] = map Inr [?b, ?b]"
    unfolding ep using feeder_scenario_A by (simp add: numeral_2_eq_2)
  have h4: "epoch_len ?c ?ws = Inr 2" using feeder_scenario_A by blast
  have h5: "(0::int) \<le> 2" by simp
  have e1: "train_batches ?run (0, replicate move_avg_len 0) (concat [?b, ?b])
      = (4, [0, 1, 2, 3] @ replicate 16 0)"
    by code_simp
  have e2: "map (\<lambda>j. sum_list (snd (train_batches ?run (0, replicate move_avg_len 0)
                                      (concat (take (Suc j) [?b, ?b])))) / real move_avg_len)
              [0..<length [?b, ?b]] = [1 / 20, 3 / 10]"
    by code_simp
  note T = moving_average_buffer [of ?run 0 ?ts 0 "\<lambda>e xs. xs" ?c ?ws "[?b, ?b]" 2]
  from T h1 h2 have "np_mean (snd (train_batches ?run (0, replicate move_avg_len 0) ?ts)) =
      sum_list (map fst (drop (length ?ts - move_avg_len) (run_trace ?run 0 ?ts)))
        / real move_avg_len"
    by blast
  then have m: "np_mean (snd (train_batches ?run (0, replicate move_avg_len 0) ?ts)) = 21 / 2"
    by (simp only: v)
  from T h3 h4 h5 have "train ?run (\<lambda>e xs. xs) ?c ?ws 0 =
      Inr (train_batches ?run (0, replicate move_avg_len 0) (concat [?b, ?b]),
           map (\<lambda>j. sum_list (snd (train_batches ?run (0, replicate move_avg_len 0)
                                      (concat (take (Suc j) [?b, ?b])))) / real move_avg_len)
              [0..<length [?b, ?b]])"
    by blast
  then have t: "train ?run (\<lambda>e xs. xs) ?c ?ws 0
      = Inr ((4, [0, 1, 2, 3] @ replicate 16 0), [1 / 20, 3 / 10])"
    by (simp only: e1 e2)
  from h1 h2 m h3 h4 h5 t show ?thesis by blast
qed

section \<open>Facts about the recurrent cell\<close>

lemma cell_lanes: "cell vars x h_1 = map2 (spec_h_next vars) x h_1"
proof (rule nth_equalityI)
  show "length (cell vars x h_1) = length (map2 (spec_h_next vars) x h_1)"
    by (simp add: cell_def Let_def tf_add_def tf_multiply_def one_minus_def tf_tanh_def
        tf_sigmoid_def bias_add_def tf_matmul_def tf_concat1_def)
next
  fix i assume "i < length (cell vars x h_1)"
  then have i: "i < length x" "i < length h_1"
    by (simp_all add: cell_def Let_def tf_add_def tf_multiply_def one_minus_def tf_tanh_def
        tf_sigmoid_def bias_add_def tf_matmul_def tf_concat1_def)
  then show "cell vars x h_1 ! i = map2 (spec_h_next vars) x h_1 ! i"
    by (simp add: cell_def Let_def tf_add_def tf_multiply_def one_minus_def tf_tanh_def
        tf_sigmoid_def bias_add_def tf_matmul_def tf_concat1_def
        spec_h_next_def spec_candidate_def spec_update_gate_def spec_reset_gate_def vec_mat_def)
qed

lemma sigmoid_bounds: "0 < sigmoid v \<and> sigmoid v < 1"
proof -
  have "0 < exp (- v)" by simp
  then show ?thesis by (simp add: sigmoid_def add_pos_pos)
qed

lemma tanh_bounds: "- 1 < tanh (v::real) \<and> tanh v < 1"
  by (simp add: tanh_real_gt_neg1 tanh_real_lt_1)

lemma convex_between:
  fixes z h c :: real
  assumes "0 < z" "z < 1"
  shows "min h c \<le> z * h + (1 - z) * c \<and> z * h + (1 - z) * c \<le> max h c"
proof -
  have a: "z * h + (1 - z) * c = c + z * (h - c)" by (simp add: algebra_simps)
  have b: "z * h + (1 - z) * c = h + (1 - z) * (c - h)" by (simp add: algebra_simps)
  show ?thesis
  proof (cases "h \<le> c")
    case True
    then have "0 \<le> (1 - z) * (c - h)" "z * (h - c) \<le> 0"
      using assms by (simp_all add: mult_nonneg_nonpos)
    then show ?thesis using True a b by (simp add: min_def max_def)
  next
    case False
    then have "(1 - z) * (c - h) \<le> 0" "0 \<le> z * (h - c)"
      using assms by (simp_all add: mult_nonneg_nonpos)
    then show ?thesis using False a b by (simp add: min_def max_def)
  qed
qed

text \<open>
  In exact real arithmetic the gates lie strictly between 0 and 1, the candidate
  strictly between \<open>- 1\<close> and 1, and the next state between the previous state and the
  candidate. This says nothing about the rounded \<^verbatim>\<open>float32\<close> values that TensorFlow
  computes.
\<close>

lemma gru_bounds_over_reals:
  "(\<forall>u\<in>set (spec_reset_gate vars x h_prev). 0 < u \<and> u < 1)
 \<and> (\<forall>u\<in>set (spec_update_gate vars x h_prev). 0 < u \<and> u < 1)
 \<and> (\<forall>u\<in>set (spec_candidate vars x h_prev). - 1 < u \<and> u < 1)
 \<and> (\<forall>k<length (spec_h_next vars x h_prev).
       min (h_prev ! k) (spec_candidate vars x h_prev ! k) \<le> spec_h_next vars x h_prev ! k
     \<and> spec_h_next vars x h_prev ! k \<le> max (h_prev ! k) (spec_candidate vars x h_prev ! k))"
proof (intro conjI ballI allI impI)
  fix u assume "u \<in> set (spec_reset_gate vars x h_prev)"
  then show "0 < u" "u < 1" using sigmoid_bounds by (auto simp: spec_reset_gate_def)
next
  fix u assume "u \<in> set (spec_update_gate vars x h_prev)"
  then show "0 < u" "u < 1" using sigmoid_bounds by (auto simp: spec_update_gate_def)
next
  fix u assume "u \<in> set (spec_candidate vars x h_prev)"
  then show "- 1 < u" "u < 1" using tanh_bounds by (auto simp: spec_candidate_def)
next
  fix k assume k: "k < length (spec_h_next vars x h_prev)"
  let ?z = "spec_update_gate vars x h_prev" and ?c = "spec_candidate vars x h_prev"
  from k have kz: "k < length ?z" and kh: "k < length h_prev" and kc: "k < length ?c"
    by (simp_all add: spec_h_next_def)
  have hn: "spec_h_next vars x h_prev ! k = ?z ! k * h_prev ! k + (1 - ?z ! k) * ?c ! k"
    using kz kh kc by (simp add: spec_h_next_def)
  have "?z ! k \<in> set ?z" using kz by simp
  then have z: "0 < ?z ! k" "?z ! k < 1"
    using sigmoid_bounds by (auto simp: spec_update_gate_def)
  from convex_between [OF z, of "h_prev ! k" "?c ! k"]
  show "min (h_prev ! k) (?c ! k) \<le> spec_h_next vars x h_prev ! k"
    and "spec_h_next vars x h_prev ! k \<le> max (h_prev ! k) (?c ! k)"
    by (simp_all add: hn)
qed

lemma length_rnn_unroll: "length (rnn_unroll vars embed_out idx s) = length s + length idx"
  by (induction idx arbitrary: s) (simp_all add: Let_def)

lemma rnn_unroll_prefix: "k < length s \<Longrightarrow> rnn_unroll vars embed_out idx s ! k = s ! k"
  by (induction idx arbitrary: s) (simp_all add: Let_def nth_append)

lemma rnn_states_first_step:
  assumes "0 < n"
  shows "rnn_states vars embed_out n ! 1
       = cell vars (map (\<lambda>lane. lane ! 0) embed_out) (gru_h_init vars)"
proof -
  have "[0..<n] = 0 # [1..<n]" using assms by (simp add: upt_conv_Cons)
  then show ?thesis
    by (simp add: rnn_states_def Let_def rnn_unroll_prefix)
qed

section \<open>Claims about the recurrent cell\<close>

text \<open>
  Claim C1. On every lane of a batch the cell computes the transition of the
  specification: with \<open>reset_gate\<close>, \<open>update_gate\<close> and \<open>candidate\<close> as the
  specification defines them, \<open>h_next = update_gate * h_prev + (1 - update_gate) * candidate\<close>.
  The result is a function of the input, the previous state and the values of the
  variables only: equal arguments give equal results.
\<close>

theorem cell_is_gru_update:
  "cell vars x h_1 = map2 (spec_h_next vars) x h_1
 \<and> length (cell vars x h_1) = min (length x) (length h_1)
 \<and> (\<forall>k. k < length x \<and> k < length h_1 \<longrightarrow>
        cell vars x h_1 ! k = spec_h_next vars (x ! k) (h_1 ! k))
 \<and> (\<forall>vars' x' h'. vars' = vars \<and> x' = x \<and> h' = h_1 \<longrightarrow> cell vars' x' h' = cell vars x h_1)"
  by (simp add: cell_lanes)

text \<open>
  One lane, all weights and biases zero: both gates are \<open>1/2\<close>, the candidate is 0 and
  the state 2 becomes 1.
\<close>

theorem cell_is_gru_update_witness:
  "(0::nat) < length [[1::real]] \<and> (0::nat) < length [[2::real]]
   \<and> cell \<lparr> gru_Wr = [[0], [0]], gru_Wz = [[0], [0]], gru_W = [[0], [0]],
             gru_br = [0], gru_bz = [0], gru_b = [0], gru_h_init = [[0]] \<rparr> [[1]] [[2]] ! 0
       = spec_h_next \<lparr> gru_Wr = [[0], [0]], gru_Wz = [[0], [0]], gru_W = [[0], [0]],
             gru_br = [0], gru_bz = [0], gru_b = [0], gru_h_init = [[0]] \<rparr> [1] [2]
   \<and> cell \<lparr> gru_Wr = [[0], [0]], gru_Wz = [[0], [0]], gru_W = [[0], [0]],
             gru_br = [0], gru_bz = [0], gru_b = [0], gru_h_init = [[0]] \<rparr> [[1]] [[2]] = [[1]]"
proof -
  let ?v = "\<lparr> gru_Wr = [[0], [0]], gru_Wz = [[0], [0]], gru_W = [[0], [0]],
             gru_br = [0], gru_bz = [0], gru_b = [0], gru_h_init = [[0]] \<rparr>"
  have s: "spec_h_next ?v [1] [2] = [1]"
    by (simp add: spec_h_next_def spec_update_gate_def spec_candidate_def spec_reset_gate_def
        vec_mat_def dot_def sigmoid_def)
  note T = cell_is_gru_update [of ?v "[[1]]" "[[2]]"]
  from T have a: "cell ?v [[1]] [[2]] = map2 (spec_h_next ?v) [[1]] [[2]]" by blast
  from T have b: "cell ?v [[1]] [[2]] ! 0 = spec_h_next ?v ([[1]] ! 0) ([[2]] ! 0)" by simp
  from a s have "cell ?v [[1]] [[2]] = [[1]]" by simp
  with b show ?thesis by simp
qed

text \<open>
  Claim C6, amended. The initial state \<^verbatim>\<open>h_init\<close> is a trainable variable of shape
  \<open>(batch_size, rnn_size)\<close>, initialised with zeros: one row for every lane of the batch,
  and nothing keeps the rows equal. It is the first element of the list of states for
  every window, so every window is unrolled from it, lane \<open>r\<close> from its row \<open>r\<close>.
\<close>

theorem h_init_per_lane:
  "snd (init_rnn_cell x_shape num_cells batch_sz) =
     \<lparr> var_name = ''h_init'', var_shape = [batch_sz, num_cells],
       var_initializer = zero_initializer, var_trainable = True \<rparr>
 \<and> length (rnn_states vars embed_out n) = n + 1
 \<and> rnn_states vars embed_out n ! 0 = gru_h_init vars
 \<and> (\<forall>r. 0 < n \<and> r < length embed_out \<and> r < length (gru_h_init vars) \<longrightarrow>
        rnn_states vars embed_out n ! 1 ! r
          = spec_h_next vars (embed_out ! r ! 0) (gru_h_init vars ! r))"
proof (intro conjI allI impI)
  show "snd (init_rnn_cell x_shape num_cells batch_sz) =
     \<lparr> var_name = ''h_init'', var_shape = [batch_sz, num_cells],
       var_initializer = zero_initializer, var_trainable = True \<rparr>"
    by (simp add: init_rnn_cell_def tf_get_variable_def Let_def)
  show "length (rnn_states vars embed_out n) = n + 1"
    by (simp add: rnn_states_def length_rnn_unroll)
  show "rnn_states vars embed_out n ! 0 = gru_h_init vars"
    by (simp add: rnn_states_def rnn_unroll_prefix)
  fix r assume a: "0 < n \<and> r < length embed_out \<and> r < length (gru_h_init vars)"
  then have "rnn_states vars embed_out n ! 1
      = cell vars (map (\<lambda>lane. lane ! 0) embed_out) (gru_h_init vars)"
    by (intro rnn_states_first_step) simp
  then show "rnn_states vars embed_out n ! 1 ! r
      = spec_h_next vars (embed_out ! r ! 0) (gru_h_init vars ! r)"
    using a by (simp add: cell_lanes)
qed

text \<open>One lane with the initial state 3.\<close>

theorem h_init_per_lane_witness:
  "(0::nat) < 1 \<and> (0::nat) < length [[[1::real]]] \<and> (0::nat) < length [[3::real]]
   \<and> rnn_states \<lparr> gru_Wr = [[0], [0]], gru_Wz = [[0], [0]], gru_W = [[0], [0]],
             gru_br = [0], gru_bz = [0], gru_b = [0], gru_h_init = [[3]] \<rparr> [[[1]]] 1 ! 0 = [[3]]
   \<and> rnn_states \<lparr> gru_Wr = [[0], [0]], gru_Wz = [[0], [0]], gru_W = [[0], [0]],
             gru_br = [0], gru_bz = [0], gru_b = [0], gru_h_init = [[3]] \<rparr> [[[1]]] 1 ! 1 ! 0
       = spec_h_next \<lparr> gru_Wr = [[0], [0]], gru_Wz = [[0], [0]], gru_W = [[0], [0]],
             gru_br = [0], gru_bz = [0], gru_b = [0], gru_h_init = [[3]] \<rparr> [1] [3]"
proof -
  let ?v = "\<lparr> gru_Wr = [[0], [0]], gru_Wz = [[0], [0]], gru_W = [[0], [0]],
             gru_br = [0], gru_bz = [0], gru_b = [0], gru_h_init = [[3]] \<rparr>"
  note T = h_init_per_lane [of "(1, 1)" 1 1 ?v "[[[1]]]" 1]
  from T have a: "rnn_states ?v [[[1]]] 1 ! 0 = [[3]]" by simp
  from T have "0 < (1::nat) \<and> 0 < length [[[1::real]]] \<and> 0 < length (gru_h_init ?v) \<longrightarrow>
        rnn_states ?v [[[1]]] 1 ! 1 ! 0 = spec_h_next ?v ([[[1]]] ! 0 ! 0) (gru_h_init ?v ! 0)"
    by blast
  then have b: "rnn_states ?v [[[1]]] 1 ! 1 ! 0 = spec_h_next ?v [1] [3]" by simp
  from a b show ?thesis by simp
qed

text \<open>
  Claim C6 as stated fails: for the configuration of the notebook the variable has the
  shape \<open>(32, 128)\<close>, not \<open>(128)\<close>, and with the value \<open>[[0], [1]]\<close> of the variable two
  lanes start a window from different states.
\<close>

theorem h_init_shared_vector_counterexample:
  "var_shape (snd (init_rnn_cell (32, 64) 128 32)) = [32, 128]
   \<and> var_shape (snd (init_rnn_cell (32, 64) 128 32)) \<noteq> [128]
   \<and> rnn_states \<lparr> gru_Wr = [[0], [0]], gru_Wz = [[0], [0]], gru_W = [[0], [0]],
             gru_br = [0], gru_bz = [0], gru_b = [0], gru_h_init = [[0], [1]] \<rparr>
         [[[0]], [[0]]] 1 ! 0 ! 0
     \<noteq> rnn_states \<lparr> gru_Wr = [[0], [0]], gru_Wz = [[0], [0]], gru_W = [[0], [0]],
             gru_br = [0], gru_bz = [0], gru_b = [0], gru_h_init = [[0], [1]] \<rparr>
         [[[0]], [[0]]] 1 ! 0 ! 1"
  by (simp add: init_rnn_cell_def tf_get_variable_def Let_def rnn_states_def rnn_unroll_prefix)

section \<open>Facts about the generation loop\<close>

lemma row_major_one_row: "row_major xs (Suc 0) (length xs) = [xs]"
  by (simp add: row_major_def)

lemma np_reshape2_one_row: "np_reshape2 xs 1 (- 1) = Inr [xs]"
  by (simp add: np_reshape2_def Let_def row_major_one_row)

lemma y_hat_one_lane:
  assumes "length h = 1"
  shows "y_hat w b h = [tf_argmax (dense_scores w b (hd h))]"
proof -
  from assms obtain r where "h = [r]" by (cases h) auto
  then show ?thesis
    by (simp add: y_hat_def bias_add_def tf_matmul_transpose_b_def dense_scores_def)
qed

lemma tf_argmax_first_max:
  assumes "xs \<noteq> []"
  shows "tf_argmax xs < length xs
       \<and> (\<forall>v\<in>set xs. v \<le> xs ! tf_argmax xs)
       \<and> (\<forall>j<tf_argmax xs. xs ! j < xs ! tf_argmax xs)"
proof -
  define m where "m = fold max xs (hd xs)"
  define k where "k = length (takeWhile (\<lambda>v. v < m) xs)"
  from assms obtain a rest where xs: "xs = a # rest" by (cases xs) auto
  have "m = fold max rest a" by (simp add: m_def xs)
  also have "\<dots> = Max (set (a # rest))" by (rule Max.set_eq_fold [symmetric])
  finally have m: "m = Max (set xs)" by (simp only: xs)
  have mem: "m \<in> set xs" unfolding m using assms by (intro Max_in) simp_all
  have ub: "v \<le> m" if "v \<in> set xs" for v unfolding m using that by (intro Max_ge) simp_all
  have "takeWhile (\<lambda>v. v < m) xs \<noteq> xs"
    using mem by (auto simp: takeWhile_eq_all_conv)
  then have "k \<noteq> length xs" unfolding k_def
    by (metis takeWhile_eq_take take_all_iff order_refl)
  then have klt: "k < length xs"
    using length_takeWhile_le [of "\<lambda>v. v < m" xs] by (simp add: k_def)
  then have "\<not> xs ! k < m" unfolding k_def by (rule nth_length_takeWhile)
  moreover have "xs ! k \<le> m" using klt by (intro ub) simp
  ultimately have at: "xs ! k = m" by simp
  have before: "xs ! j < m" if "j < k" for j
  proof -
    from that have "takeWhile (\<lambda>v. v < m) xs ! j \<in> set (takeWhile (\<lambda>v. v < m) xs)"
      by (simp add: k_def)
    then have "takeWhile (\<lambda>v. v < m) xs ! j < m" by (blast dest: set_takeWhileD)
    then show ?thesis using that by (simp add: takeWhile_nth k_def)
  qed
  have "tf_argmax xs = k" by (simp add: tf_argmax_def k_def m_def)
  then show ?thesis using klt at ub before by simp
qed

lemma dense_scores_nonempty: "w \<noteq> [] \<Longrightarrow> b \<noteq> [] \<Longrightarrow> dense_scores w b r \<noteq> []"
  by (cases w; cases b) (simp_all add: dense_scores_def)

lemma predict_loop_tokens:
  assumes shape: "\<And>x. length (hid_out x) = length x"
    and vocab: "w \<noteq> []" "b \<noteq> []"
    and bs: "batch_size config = 1"
    and ns: "num_rnn_steps config = int S"
  shows "length input = S + i \<Longrightarrow>
         \<exists>out. predict_loop (run_y_hat hid_out w b config) (int S) i n input = Inr out
           \<and> length out = S + i + n
           \<and> take (S + i) out = input
           \<and> (\<forall>k. i \<le> k \<and> k < i + n \<longrightarrow>
                 out ! (S + k) =
                   int (tf_argmax (dense_scores w b (hd (hid_out [take S (drop k out)])))))"
proof (induction n arbitrary: i input)
  case 0
  then show ?case by simp
next
  case (Suc n)
  let ?win = "take S (drop i input)"
  let ?p = "int (tf_argmax (dense_scores w b (hd (hid_out [?win]))))"
  have lw: "length ?win = S" using Suc.prems by simp
  have sl: "py_slice input (int i) (int i + int S) = ?win"
    using Suc.prems by (intro py_slice_inside [of "int i" "int S" input, simplified]) simp
  have run: "run_y_hat hid_out w b config [?win] = Inr [?p]"
    using vocab lw by (simp add: run_y_hat_def bs ns y_hat_one_lane shape)
  have len': "length (input @ [?p]) = S + Suc i" using Suc.prems by simp
  from Suc.IH [OF len'] obtain out where
    out: "predict_loop (run_y_hat hid_out w b config) (int S) (Suc i) n (input @ [?p]) = Inr out"
      "length out = S + Suc i + n"
      "take (S + Suc i) out = input @ [?p]"
      "\<forall>k. Suc i \<le> k \<and> k < Suc i + n \<longrightarrow>
          out ! (S + k) = int (tf_argmax (dense_scores w b (hd (hid_out [take S (drop k out)]))))"
    by blast
  have pl: "predict_loop (run_y_hat hid_out w b config) (int S) i (Suc n) input = Inr out"
    by (simp add: sl np_reshape2_one_row run out(1))
  have "take (S + i) (take (S + Suc i) out) = take (S + i) (input @ [?p])"
    by (simp only: out(3))
  then have pre: "take (S + i) out = input" using Suc.prems by (simp add: min_def)
  have "take (S + Suc i) out ! (S + i) = (input @ [?p]) ! (S + i)"
    by (simp only: out(3))
  then have at: "out ! (S + i) = ?p" using Suc.prems by (simp add: nth_append)
  have "take S (drop i out) = drop i (take (S + i) out)"
    by (simp add: drop_take add.commute)
  then have win: "take S (drop i out) = ?win"
    using Suc.prems by (simp add: pre)
  have toks: "out ! (S + k) = int (tf_argmax (dense_scores w b (hd (hid_out [take S (drop k out)]))))"
    if "i \<le> k \<and> k < i + Suc n" for k
  proof (cases "k = i")
    case True
    then show ?thesis using at win by simp
  next
    case False
    with that have "Suc i \<le> k \<and> k < Suc i + n" by simp
    then show ?thesis using out(4) by blast
  qed
  from pl out(2) pre toks show ?case by auto
qed

section \<open>Claims about the generator\<close>

text \<open>
  Claim C7. For fixed parameters and a seed window of \<open>num_rnn_steps\<close> tokens, a
  generation run of length \<open>n\<close> returns the seed followed by \<open>n\<close> tokens, each the
  \<^verbatim>\<open>argmax\<close> of the dense scores \<open>representation \<cdot> W\<^sup>T + b\<close> of the \<open>num_rnn_steps\<close>
  tokens before it (an index into the vocabulary at which the score is largest), and
  every run with the same parameters and the same seed window returns the same
  sequence, wherever the seed was taken from.
\<close>

theorem generator_deterministic:
  assumes shape: "\<And>x. length (hid_out x) = length x"
    and vocab: "w \<noteq> []" "b \<noteq> []"
    and seed: "int (length (py_slice word_array start (start + num_rnn_steps config)))
                 = num_rnn_steps config"
  shows "\<exists>out. predict hid_out w b config word_array start n = Inr out
       \<and> length out = nat (num_rnn_steps config) + n
       \<and> take (nat (num_rnn_steps config)) out
             = py_slice word_array start (start + num_rnn_steps config)
       \<and> (\<forall>k<n. out ! (nat (num_rnn_steps config) + k) =
               int (tf_argmax (window_scores hid_out w b
                 (take (nat (num_rnn_steps config)) (drop k out)))))
       \<and> (\<forall>win. tf_argmax (window_scores hid_out w b win)
                 < length (window_scores hid_out w b win)
             \<and> (\<forall>v\<in>set (window_scores hid_out w b win).
                   v \<le> window_scores hid_out w b win ! tf_argmax (window_scores hid_out w b win)))
       \<and> (\<forall>word_array' start'.
               py_slice word_array' start' (start' + num_rnn_steps config)
                 = py_slice word_array start (start + num_rnn_steps config)
               \<longrightarrow> predict hid_out w b config word_array' start' n = Inr out)"
proof -
  define S where "S = nat (num_rnn_steps config)"
  let ?c = "config\<lparr>batch_size := 1\<rparr>"
  let ?seed = "py_slice word_array start (start + num_rnn_steps config)"
  have ns: "num_rnn_steps ?c = int S" using seed by (simp add: S_def)
  have bs: "batch_size ?c = 1" by simp
  have len: "length ?seed = S + 0" using seed by (simp add: S_def)
  from predict_loop_tokens [OF shape vocab bs ns len, of n] obtain out where
    out: "predict_loop (run_y_hat hid_out w b ?c) (int S) 0 n ?seed = Inr out"
      "length out = S + 0 + n" "take (S + 0) out = ?seed"
      "\<forall>k. 0 \<le> k \<and> k < 0 + n \<longrightarrow>
          out ! (S + k) = int (tf_argmax (dense_scores w b (hd (hid_out [take S (drop k out)]))))"
    by blast
  have p: "predict hid_out w b config wa st n = Inr out"
    if "py_slice wa st (st + num_rnn_steps config) = ?seed" for wa st
    using that out(1) ns by (simp add: predict_def Let_def)
  have "predict hid_out w b config word_array start n = Inr out" by (rule p) simp
  moreover have "length out = S + n" "take S out = ?seed" using out(2,3) by simp_all
  moreover have "\<forall>k<n. out ! (S + k) =
      int (tf_argmax (window_scores hid_out w b (take S (drop k out))))"
    using out(4) by (simp add: window_scores_def)
  moreover have "\<forall>win. tf_argmax (window_scores hid_out w b win)
                 < length (window_scores hid_out w b win)
             \<and> (\<forall>v\<in>set (window_scores hid_out w b win).
                   v \<le> window_scores hid_out w b win ! tf_argmax (window_scores hid_out w b win))"
    using tf_argmax_first_max [OF dense_scores_nonempty [OF vocab]]
    by (simp add: window_scores_def)
  ultimately show ?thesis using p unfolding S_def by blast
qed

text \<open>
  A vocabulary of two tokens scored by the identity matrix: the seed \<open>[1, 0]\<close>, taken
  from two different documents, is continued by \<open>[0, 0]\<close> both times.
\<close>

theorem generator_deterministic_witness:
  "(\<forall>x :: int list list. length (map (map real_of_int) x) = length x)
   \<and> [[1, 0], [0, 1 :: real]] \<noteq> [] \<and> [0, 0 :: real] \<noteq> []
   \<and> int (length (py_slice [0, 1, 0, 1 :: int] 1
         (1 + num_rnn_steps ((Config_init 2)\<lparr>num_rnn_steps := 2\<rparr>))))
       = num_rnn_steps ((Config_init 2)\<lparr>num_rnn_steps := 2\<rparr>)
   \<and> predict (map (map real_of_int)) [[1, 0], [0, 1]] [0, 0]
         ((Config_init 2)\<lparr>num_rnn_steps := 2\<rparr>) [0, 1, 0, 1] 1 2 = Inr [1, 0, 0, 0]
   \<and> predict (map (map real_of_int)) [[1, 0], [0, 1]] [0, 0]
         ((Config_init 2)\<lparr>num_rnn_steps := 2\<rparr>) [7, 1, 0] 1 2 = Inr [1, 0, 0, 0]"
proof -
  let ?c = "(Config_init 2)\<lparr>num_rnn_steps := 2\<rparr>"
  let ?h = "map (map real_of_int) :: int list list \<Rightarrow> matrix"
  let ?w = "[[1, 0], [0, 1]] :: matrix"
  let ?b = "[0, 0] :: vector"
  have h1: "length (?h x) = length x" for x by simp
  have h2: "?w \<noteq> []" and h3: "?b \<noteq> []" by simp_all
  have nst: "num_rnn_steps ?c = 2" by simp
  have s1: "py_slice [0, 1, 0, 1 :: int] 1 3 = [1, 0]"
    by (simp add: py_slice_def py_clip_def)
  have s2: "py_slice [7, 1, 0 :: int] 1 3 = [1, 0]"
    by (simp add: py_slice_def py_clip_def)
  have h4: "int (length (py_slice [0, 1, 0, 1 :: int] 1 (1 + num_rnn_steps ?c)))
      = num_rnn_steps ?c"
    by (simp add: s1)
  from generator_deterministic [OF h1 h2 h3 h4, of 2] obtain out where
    out: "predict ?h ?w ?b ?c [0, 1, 0, 1] 1 2 = Inr out"
      "length out = nat (num_rnn_steps ?c) + 2"
      "take (nat (num_rnn_steps ?c)) out = py_slice [0, 1, 0, 1] 1 (1 + num_rnn_steps ?c)"
      "\<forall>k<2. out ! (nat (num_rnn_steps ?c) + k) =
          int (tf_argmax (window_scores ?h ?w ?b (take (nat (num_rnn_steps ?c)) (drop k out))))"
      "\<forall>word_array' start'.
          py_slice word_array' start' (start' + num_rnn_steps ?c)
            = py_slice [0, 1, 0, 1] 1 (1 + num_rnn_steps ?c)
          \<longrightarrow> predict ?h ?w ?b ?c word_array' start' 2 = Inr out"
    by blast
  from out(2) have l: "length out = 4" by simp
  from out(3) have t: "take 2 out = [1, 0]" by (simp add: s1)
  have a0: "tf_argmax (window_scores ?h ?w ?b [1, 0]) = 0"
    by (simp add: tf_argmax_def window_scores_def dense_scores_def dot_def)
  have a1: "tf_argmax (window_scores ?h ?w ?b [0, 0]) = 0"
    by (simp add: tf_argmax_def window_scores_def dense_scores_def dot_def)
  from t l have o01: "out ! 0 = 1" "out ! 1 = 0"
    by (metis nth_take zero_less_numeral nth_Cons_0,
        metis nth_take one_less_numeral_iff semiring_norm(76) nth_Cons_0 nth_Cons_Suc One_nat_def)
  from out(4) have "out ! (nat (num_rnn_steps ?c) + 0) =
      int (tf_argmax (window_scores ?h ?w ?b (take (nat (num_rnn_steps ?c)) (drop 0 out))))"
    by (metis zero_less_numeral)
  then have o2: "out ! 2 = 0" using t a0 by simp
  have "take 2 (drop 1 out) = [out ! 1, out ! 2]"
    using l by (simp add: take_Suc_conv_app_nth numeral_2_eq_2 Cons_nth_drop_Suc [symmetric])
  then have d1: "take 2 (drop 1 out) = [0, 0]" using o01 o2 by simp
  from out(4) have "out ! (nat (num_rnn_steps ?c) + 1) =
      int (tf_argmax (window_scores ?h ?w ?b (take (nat (num_rnn_steps ?c)) (drop 1 out))))"
    by (metis one_less_numeral_iff semiring_norm(76))
  then have o3: "out ! 3 = 0" using d1 a1 by simp
  have "out = [out ! 0, out ! 1, out ! 2, out ! 3]"
    using l by (intro nth_equalityI) (auto simp: nth_Cons' numeral_eq_Suc less_Suc_eq)
  then have e: "out = [1, 0, 0, 0]" using o01 o2 o3 by simp
  from out(5) have "py_slice [7, 1, 0 :: int] 1 (1 + num_rnn_steps ?c)
            = py_slice [0, 1, 0, 1] 1 (1 + num_rnn_steps ?c)
          \<longrightarrow> predict ?h ?w ?b ?c [7, 1, 0] 1 2 = Inr out"
    by blast
  then have p2: "predict ?h ?w ?b ?c [7, 1, 0] 1 2 = Inr out"
    by (simp add: s1 s2)
  from out(1) p2 e h1 h2 h3 h4 show ?thesis by simp
qed

end
